theory Spec2Isabelle
  imports Complex_Main "HOL-Library.Word" "HOL-Library.Monad_Syntax"
begin

section \<open>The six-vertex sampler of \<^verbatim>\<open>main.c\<close>\<close>

text \<open>
  The program keeps its lattices, weights and counters in global variables. The model
  collects the globals that the routines of the first (upper) matrix read or write in
  one record and passes it through every routine. The routines of the second matrix
  (\<^verbatim>\<open>getisflippable2\<close>, \<^verbatim>\<open>updatepositions2\<close>, ...) repeat the same text on
  \<^verbatim>\<open>matrix2\<close>. The source is compiled with \<^verbatim>\<open>STICKY 0\<close> and \<^verbatim>\<open>DEBUG 0\<close>, so the
  lines between \<^verbatim>\<open>#if STICKY\<close> or \<^verbatim>\<open>#if DEBUG\<close> and their \<^verbatim>\<open>#endif\<close> are not part of
  the program.

  C's \<^verbatim>\<open>int\<close> is modelled by \<^typ>\<open>int\<close>: the routines below add or subtract at most 2 to
  indices below 1000, store differences of byte values, count at most \<open>ncols\<close> cells of a
  row and sum at most \<open>nrows * ncols\<close> such counts, and move a height or a counter by one,
  so with dimensions up to 1000 no value comes near the 32-bit limits.

  C's \<^verbatim>\<open>double\<close> is a type parameter \<open>'d\<close> of the model, and the operations of the platform
  on doubles that the program uses (\<^verbatim>\<open>*\<close>, \<^verbatim>\<open>/\<close>, \<^verbatim>\<open>+\<close>, \<^verbatim>\<open><\<close>, \<^verbatim>\<open>>=\<close>) are a parameter of every
  routine that computes with doubles: nothing is assumed about rounding, overflow,
  infinities or NaN, so what is proved of those routines holds of them whatever the
  arithmetic of doubles is.

  A C array has no meaning outside its bounds. Every read and write of
  \<^verbatim>\<open>matrix[MAXROWS][MAXCOLS]\<close> and of \<^verbatim>\<open>wts[6]\<close> with a computed index is therefore
  guarded in the model: an access outside the array yields \<open>None\<close>, and so does every
  routine that performs it. A routine that returns \<open>Some\<close> has stayed inside the arrays.
\<close>

subsection \<open>Data\<close>

definition MAXROWS :: int where
  "MAXROWS = 1000"

definition MAXCOLS :: int where
  "MAXCOLS = 1000"

record mstruct =
  type :: int
  height :: int

record 'd state =
  matrix :: "int \<Rightarrow> int \<Rightarrow> mstruct"
  wts :: "int \<Rightarrow> 'd"
  rho :: 'd
  nrows :: int
  ncols :: int
  matrixvol :: int
  flipcompleted :: int
  flipfailed :: int

text \<open>
  The operations on doubles: \<open>fmul\<close>, \<open>fdiv\<close> and \<open>fadd\<close> are \<^verbatim>\<open>x * y\<close>, \<^verbatim>\<open>x / y\<close> and \<^verbatim>\<open>x + y\<close>,
  \<open>flt x y\<close> is the test \<^verbatim>\<open>x < y\<close> and \<open>fge x y\<close> the test \<^verbatim>\<open>x >= y\<close>.
\<close>

record 'd arith =
  fmul :: "'d \<Rightarrow> 'd \<Rightarrow> 'd"
  fdiv :: "'d \<Rightarrow> 'd \<Rightarrow> 'd"
  fadd :: "'d \<Rightarrow> 'd \<Rightarrow> 'd"
  flt :: "'d \<Rightarrow> 'd \<Rightarrow> bool"
  fge :: "'d \<Rightarrow> 'd \<Rightarrow> bool"

definition LOW :: int where
  "LOW = 0"

definition HIGH :: int where
  "HIGH = 1"

definition in_array :: "int \<Rightarrow> int \<Rightarrow> bool" where
  "in_array i j \<longleftrightarrow> 0 \<le> i \<and> i < MAXROWS \<and> 0 \<le> j \<and> j < MAXCOLS"

text \<open>\<^verbatim>\<open>matrix[i][j].type\<close> and \<^verbatim>\<open>matrix[i][j].height\<close>, read and written.\<close>

definition get_type :: "'d state \<Rightarrow> int \<Rightarrow> int \<Rightarrow> int option" where
  "get_type s i j = (if in_array i j then Some (type (matrix s i j)) else None)"

definition get_height :: "'d state \<Rightarrow> int \<Rightarrow> int \<Rightarrow> int option" where
  "get_height s i j = (if in_array i j then Some (height (matrix s i j)) else None)"

definition set_type :: "int \<Rightarrow> int \<Rightarrow> int \<Rightarrow> 'd state \<Rightarrow> 'd state option" where
  "set_type i j t s =
     (if in_array i j
      then Some (s\<lparr>matrix := (matrix s)(i := (matrix s i)(j := (matrix s i j)\<lparr>type := t\<rparr>))\<rparr>)
      else None)"

definition set_height :: "int \<Rightarrow> int \<Rightarrow> int \<Rightarrow> 'd state \<Rightarrow> 'd state option" where
  "set_height i j h s =
     (if in_array i j
      then Some (s\<lparr>matrix := (matrix s)(i := (matrix s i)(j := (matrix s i j)\<lparr>height := h\<rparr>))\<rparr>)
      else None)"

text \<open>\<^verbatim>\<open>wts[k]\<close> with a computed index \<open>k\<close>.\<close>

definition get_wts :: "'d state \<Rightarrow> int \<Rightarrow> 'd option" where
  "get_wts s k = (if 0 \<le> k \<and> k < 6 then Some (wts s k) else None)"

subsection \<open>Flippability\<close>

text \<open>
  \<^verbatim>\<open>getisflippable(&rpos, &cpos, &type)\<close>: the two range tests return before any cell is
  read; a nonzero \<open>ty\<close> asks for the high (UP) flip, zero for the low (DOWN) flip.
\<close>

definition getisflippable :: "'d state \<Rightarrow> int \<Rightarrow> int \<Rightarrow> int \<Rightarrow> int option" where
  "getisflippable s rpos cpos ty =
     (if rpos < 0 \<or> rpos \<ge> nrows s then Some 0
      else if cpos < 0 \<or> cpos \<ge> ncols s then Some 0
      else if ty \<noteq> 0 then
        (if rpos > 0 \<and> cpos < ncols s - 1 then
           do {
             b \<leftarrow> get_type s rpos cpos;
             if b = 0 \<or> b = 5 then
               do {
                 d \<leftarrow> get_type s (rpos - 1) (cpos + 1);
                 if d = 1 \<or> d = 5 then Some 1 else Some 0
               }
             else Some 0
           }
         else Some 0)
      else
        (if rpos < nrows s - 1 \<and> cpos > 0 then
           do {
             b \<leftarrow> get_type s rpos cpos;
             if b = 0 \<or> b = 4 then
               do {
                 d \<leftarrow> get_type s (rpos + 1) (cpos - 1);
                 if d = 1 \<or> d = 4 then Some 1 else Some 0
               }
             else Some 0
           }
         else Some 0))"

subsection \<open>Flip execution\<close>

text \<open>One statement \<^verbatim>\<open>if(matrix[i][j].type == a) matrix[i][j].type = b;\<close>.\<close>

definition relabel :: "int \<Rightarrow> int \<Rightarrow> int \<Rightarrow> int \<Rightarrow> 'd state \<Rightarrow> 'd state option" where
  "relabel i j a b s =
     do {
       t \<leftarrow> get_type s i j;
       if t = a then set_type i j b s else Some s
     }"

text \<open>
  \<^verbatim>\<open>updatepositions\<close>: eight such statements in a row for either direction, each reading
  the matrix as the statements before it left it.
\<close>

definition updatepositions :: "'d state \<Rightarrow> int \<Rightarrow> int \<Rightarrow> int \<Rightarrow> 'd state option" where
  "updatepositions s rpos cpos ty =
     (if ty \<noteq> 0 then
        do {
          s \<leftarrow> relabel rpos cpos 0 4 s;
          s \<leftarrow> relabel rpos cpos 5 1 s;
          s \<leftarrow> relabel (rpos - 1) (cpos + 1) 1 4 s;
          s \<leftarrow> relabel (rpos - 1) (cpos + 1) 5 0 s;
          s \<leftarrow> relabel rpos (cpos + 1) 3 5 s;
          s \<leftarrow> relabel rpos (cpos + 1) 4 2 s;
          s \<leftarrow> relabel (rpos - 1) cpos 2 5 s;
          relabel (rpos - 1) cpos 4 3 s
        }
      else
        do {
          s \<leftarrow> relabel rpos cpos 4 1 s;
          s \<leftarrow> relabel rpos cpos 0 5 s;
          s \<leftarrow> relabel (rpos + 1) (cpos - 1) 4 0 s;
          s \<leftarrow> relabel (rpos + 1) (cpos - 1) 1 5 s;
          s \<leftarrow> relabel rpos (cpos - 1) 5 2 s;
          s \<leftarrow> relabel rpos (cpos - 1) 3 4 s;
          s \<leftarrow> relabel (rpos + 1) cpos 5 3 s;
          relabel (rpos + 1) cpos 2 4 s
        })"

text \<open>
  \<^verbatim>\<open>executeflip\<close>: the relabelling, then one height and the volume counter move by one.
  The C function returns 0 in every case; the model returns the state it leaves.
\<close>

definition executeflip :: "'d state \<Rightarrow> int \<Rightarrow> int \<Rightarrow> int \<Rightarrow> 'd state option" where
  "executeflip s rpos cpos ty =
     do {
       s \<leftarrow> updatepositions s rpos cpos ty;
       if ty \<noteq> 0 then
         do {
           h \<leftarrow> get_height s rpos cpos;
           s \<leftarrow> set_height rpos cpos (h - 1) s;
           Some (s\<lparr>matrixvol := matrixvol s - 1\<rparr>)
         }
       else
         do {
           h \<leftarrow> get_height s (rpos + 1) (cpos - 1);
           s \<leftarrow> set_height (rpos + 1) (cpos - 1) (h + 1) s;
           Some (s\<lparr>matrixvol := matrixvol s + 1\<rparr>)
         }
     }"

subsection \<open>Weight ratio and \<open>rho\<close>\<close>

text \<open>One statement \<^verbatim>\<open>if(x == a) x = b;\<close> on a variable.\<close>

definition reassign :: "int \<Rightarrow> int \<Rightarrow> int \<Rightarrow> int" where
  "reassign a b x = (if x = a then b else x)"

text \<open>
  \<^verbatim>\<open>getweightratio\<close>. The variables \<^verbatim>\<open>xshift\<close>, \<^verbatim>\<open>yshift\<close>, \<^verbatim>\<open>dshift\<close> and \<^verbatim>\<open>base\<close> are
  globals of the program that no other routine reads but \<^verbatim>\<open>getweightratio2\<close>, which
  assigns them first; they are local here. The returned expression
  \<^verbatim>\<open>wts[base] * wts[xshift] * wts[yshift] * wts[dshift] / rho\<close> associates to the left.
\<close>

definition getweightratio :: "'d arith \<Rightarrow> 'd state \<Rightarrow> int \<Rightarrow> int \<Rightarrow> int \<Rightarrow> 'd option" where
  "getweightratio A s rpos cpos ty =
     do {
       xshift \<leftarrow> get_type s rpos (cpos - 1 + 2 * ty);
       yshift \<leftarrow> get_type s (rpos + 1 - 2 * ty) cpos;
       dshift \<leftarrow> get_type s (rpos + 1 - 2 * ty) (cpos - 1 + 2 * ty);
       base \<leftarrow> get_type s rpos cpos;
       (base, dshift, xshift, yshift) \<leftarrow>
         Some (if ty \<noteq> 0 then
                 (reassign 5 1 (reassign 0 4 base),
                  reassign 5 0 (reassign 1 4 dshift),
                  reassign 4 2 (reassign 3 5 xshift),
                  reassign 4 3 (reassign 2 5 yshift))
               else
                 (reassign 0 5 (reassign 4 1 base),
                  reassign 1 5 (reassign 4 0 dshift),
                  reassign 3 4 (reassign 5 2 xshift),
                  reassign 2 4 (reassign 5 3 yshift)));
       wb \<leftarrow> get_wts s base;
       wx \<leftarrow> get_wts s xshift;
       wy \<leftarrow> get_wts s yshift;
       wd \<leftarrow> get_wts s dshift;
       Some (fdiv A (fmul A (fmul A (fmul A wb wx) wy) wd) (rho s))
     }"

text \<open>
  \<^verbatim>\<open>definerho\<close> is a sequence of 80 statements \<^verbatim>\<open>if(rho<(e)) rho = e;\<close> and returns the
  \<open>rho\<close> it leaves. The first eight expressions are the products
  \<^verbatim>\<open>wts[a]*wts[b]*wts[c]*wts[d]\<close> of \<open>rho_down\<close> (headed ``down normal flip possibilities''
  in the source), the next eight those of \<open>rho_up\<close> (``up normal flip possibilities''), and
  the 64 ``biflip possibilities'' are, block by block, each product of \<open>rho_bi_first\<close> plus
  each product of \<open>rho_bi_second\<close>, in this order. The products associate to the left and
  the indices are constants within \<^verbatim>\<open>wts[6]\<close>.
\<close>

definition prod4 :: "'d arith \<Rightarrow> (int \<Rightarrow> 'd) \<Rightarrow> int \<times> int \<times> int \<times> int \<Rightarrow> 'd" where
  "prod4 A w q = (case q of (a, b, c, d) \<Rightarrow> fmul A (fmul A (fmul A (w a) (w b)) (w c)) (w d))"

definition rho_down :: "(int \<times> int \<times> int \<times> int) list" where
  "rho_down = [(1, 4, 5, 4), (1, 4, 5, 3), (1, 4, 0, 4), (1, 4, 0, 3),
               (1, 2, 5, 4), (1, 2, 5, 3), (1, 2, 0, 4), (1, 2, 0, 3)]"

definition rho_up :: "(int \<times> int \<times> int \<times> int) list" where
  "rho_up = [(1, 3, 4, 5), (1, 3, 4, 2), (1, 3, 0, 5), (1, 3, 0, 2),
             (1, 5, 4, 5), (1, 5, 4, 2), (1, 5, 0, 5), (1, 5, 0, 2)]"

definition rho_bi_first :: "(int \<times> int \<times> int \<times> int) list" where
  "rho_bi_first = [(5, 4, 5, 4), (5, 4, 5, 3), (5, 4, 0, 4), (5, 4, 0, 3),
                   (5, 2, 5, 4), (5, 2, 5, 3), (5, 2, 0, 4), (5, 2, 0, 3)]"

definition rho_bi_second :: "(int \<times> int \<times> int \<times> int) list" where
  "rho_bi_second = [(4, 3, 4, 5), (4, 3, 4, 2), (4, 3, 0, 5), (4, 3, 0, 2),
                    (4, 5, 4, 5), (4, 5, 4, 2), (4, 5, 1, 5), (4, 5, 1, 2)]"

definition rho_candidates :: "'d arith \<Rightarrow> (int \<Rightarrow> 'd) \<Rightarrow> 'd list" where
  "rho_candidates A w =
     map (prod4 A w) rho_down @ map (prod4 A w) rho_up
     @ concat (map (\<lambda>d. map (\<lambda>u. fadd A (prod4 A w d) (prod4 A w u)) rho_bi_second)
         rho_bi_first)"

definition raise_to :: "'d arith \<Rightarrow> 'd \<Rightarrow> 'd \<Rightarrow> 'd" where
  "raise_to A e r = (if flt A r e then e else r)"

definition definerho :: "'d arith \<Rightarrow> 'd state \<Rightarrow> 'd state" where
  "definerho A s = s\<lparr>rho := fold (raise_to A) (rho_candidates A (wts s)) (rho s)\<rparr>"

subsection \<open>Loops over the lattice\<close>

text \<open>
  \<^verbatim>\<open>for(k=0;k<n;k++) body\<close> on a loop state: \<open>for_upto n body a\<close> runs the iterations
  \<open>0, \<dots>, n - 1\<close> in this order. For the bound \<^verbatim>\<open>nrows\<close> or \<^verbatim>\<open>ncols\<close>, which no body
  changes, \<open>n\<close> is \<open>nat nrows\<close> or \<open>nat ncols\<close>: no iteration when the bound is negative.
\<close>

primrec for_upto :: "nat \<Rightarrow> (int \<Rightarrow> 'a \<Rightarrow> 'a option) \<Rightarrow> 'a \<Rightarrow> 'a option" where
  "for_upto 0 body a = Some a"
| "for_upto (Suc n) body a = for_upto n body a \<bind> body (int n)"

text \<open>
  \<^verbatim>\<open>print_volume\<close>: the loop state is \<^verbatim>\<open>(current, total)\<close>; the result is the number the
  routine appends to the volume file.
\<close>

definition volume_cell :: "'d state \<Rightarrow> int \<Rightarrow> int \<Rightarrow> int \<times> int \<Rightarrow> (int \<times> int) option" where
  "volume_cell s i j = (\<lambda>(current, total).
     do {
       t \<leftarrow> get_type s i j;
       let current = (if t = 0 \<or> t = 2 \<or> t = 5 then current + 1 else current);
       Some (current, total + current)
     })"

definition volume_row :: "'d state \<Rightarrow> int \<Rightarrow> int \<times> int \<Rightarrow> (int \<times> int) option" where
  "volume_row s i = (\<lambda>(current, total). for_upto (nat (ncols s)) (volume_cell s i) (0, total))"

definition print_volume :: "'d state \<Rightarrow> int option" where
  "print_volume s = map_option snd (for_upto (nat (nrows s)) (volume_row s) (0, 0))"

text \<open>
  \<^verbatim>\<open>setheights\<close>: the same walk, storing \<^verbatim>\<open>current\<close> as the height of each cell; the
  result is the state it leaves and the total it returns (which \<^verbatim>\<open>main\<close> assigns to
  \<^verbatim>\<open>matrixvol\<close>).
\<close>

definition setheights_cell :: "int \<Rightarrow> int \<Rightarrow> 'd state \<times> int \<times> int \<Rightarrow> ('d state \<times> int \<times> int) option" where
  "setheights_cell i j = (\<lambda>(s, current, total).
     do {
       t \<leftarrow> get_type s i j;
       let current = (if t = 0 \<or> t = 2 \<or> t = 5 then current + 1 else current);
       s \<leftarrow> set_height i j current s;
       Some (s, current, total + current)
     })"

definition setheights_row :: "int \<Rightarrow> 'd state \<times> int \<times> int \<Rightarrow> ('d state \<times> int \<times> int) option" where
  "setheights_row i = (\<lambda>(s, current, total).
     for_upto (nat (ncols s)) (setheights_cell i) (s, 0, total))"

definition setheights :: "'d state \<Rightarrow> ('d state \<times> int) option" where
  "setheights s =
     do {
       (s, current, total) \<leftarrow> for_upto (nat (nrows s)) setheights_row (s, 0, 0);
       Some (s, total)
     }"

text \<open>
  \<^verbatim>\<open>fgetc\<close> on the bytes that remain of a stream: the next byte as a value in \<open>0..255\<close>,
  or \<^verbatim>\<open>EOF\<close> at the end. \<^verbatim>\<open>EOF\<close> is a macro of \<^verbatim>\<open><stdio.h>\<close>, a negative \<^verbatim>\<open>int\<close>; it is
  \<open>-1\<close> in the C libraries in use.
\<close>

definition EOF :: int where
  "EOF = - 1"

definition fgetc :: "8 word list \<Rightarrow> int \<times> 8 word list" where
  "fgetc data = (case data of [] \<Rightarrow> (EOF, []) | b # rest \<Rightarrow> (uint b, rest))"

text \<open>
  \<^verbatim>\<open>parse\<close>: the loop state is the program state and what remains of the stream; the
  character \<^verbatim>\<open>'0'\<close> is 48.
\<close>

definition parse_cell :: "int \<Rightarrow> int \<Rightarrow> 'd state \<times> 8 word list \<Rightarrow> ('d state \<times> 8 word list) option" where
  "parse_cell i j = (\<lambda>(s, data).
     do {
       let (ch, data) = fgetc data;
       s \<leftarrow> set_type i j (ch - 48) s;
       Some (s, data)
     })"

definition parse_row :: "int \<Rightarrow> 'd state \<times> 8 word list \<Rightarrow> ('d state \<times> 8 word list) option" where
  "parse_row i = (\<lambda>(s, data). for_upto (nat (ncols s)) (parse_cell i) (s, data))"

definition parse :: "'d state \<Rightarrow> 8 word list \<Rightarrow> 'd state option" where
  "parse s data = map_option fst (for_upto (nat (nrows s)) parse_row (s, data))"

subsection \<open>The driver\<close>

text \<open>
  One pass of the loop of \<^verbatim>\<open>main\<close> over the first matrix: the two calls of
  \<^verbatim>\<open>getisflippable\<close> at the drawn position and the three-way branch ``Handle the
  matrices''. The printing between them reads the state only. Each branch draws
  \<^verbatim>\<open>random = (double) rand()/RAND_MAX\<close> once, after the ratios are computed; the draw is a
  parameter of the model. The tests are \<^verbatim>\<open>flipchance>=random\<close> and
  \<^verbatim>\<open>flipchance+flipchance2>=random\<close>, on doubles.
\<close>

definition first_matrix_step :: "'d arith \<Rightarrow> 'd state \<Rightarrow> int \<Rightarrow> int \<Rightarrow> 'd \<Rightarrow> 'd state option" where
  "first_matrix_step A s flipchoicerow flipchoicecol random =
     do {
       vcanfliphigh1 \<leftarrow> getisflippable s flipchoicerow flipchoicecol HIGH;
       vcanfliplow1 \<leftarrow> getisflippable s flipchoicerow flipchoicecol LOW;
       if vcanfliphigh1 = 1 \<and> vcanfliplow1 = 0 then
         do {
           flipchance \<leftarrow> getweightratio A s flipchoicerow flipchoicecol HIGH;
           if fge A flipchance random then
             executeflip (s\<lparr>flipcompleted := flipcompleted s + 1\<rparr>)
               flipchoicerow flipchoicecol HIGH
           else Some (s\<lparr>flipfailed := flipfailed s + 1\<rparr>)
         }
       else if vcanfliphigh1 = 0 \<and> vcanfliplow1 = 1 then
         do {
           flipchance \<leftarrow> getweightratio A s flipchoicerow flipchoicecol LOW;
           if fge A flipchance random then
             do {
               s \<leftarrow> executeflip s flipchoicerow flipchoicecol LOW;
               Some (s\<lparr>flipcompleted := flipcompleted s + 1\<rparr>)
             }
           else Some (s\<lparr>flipfailed := flipfailed s + 1\<rparr>)
         }
       else if vcanfliphigh1 = 1 \<and> vcanfliplow1 = 1 then
         do {
           flipchance \<leftarrow> getweightratio A s flipchoicerow flipchoicecol HIGH;
           flipchance2 \<leftarrow> getweightratio A s flipchoicerow flipchoicecol LOW;
           if fge A flipchance random then
             do {
               s \<leftarrow> executeflip s flipchoicerow flipchoicecol HIGH;
               Some (s\<lparr>flipcompleted := flipcompleted s + 1\<rparr>)
             }
           else if fge A (fadd A flipchance flipchance2) random then
             do {
               s \<leftarrow> executeflip s flipchoicerow flipchoicecol LOW;
               Some (s\<lparr>flipcompleted := flipcompleted s + 1\<rparr>)
             }
           else Some (s\<lparr>flipfailed := flipfailed s + 1\<rparr>)
         }
       else Some s
     }"

subsection \<open>Start of \<^verbatim>\<open>main\<close>\<close>

text \<open>
  What the start of \<^verbatim>\<open>main\<close> sees of its environment: whether arguments were given (then
  all thirteen are taken to be present), and whether each \<^verbatim>\<open>fgets\<close> and \<^verbatim>\<open>fopen\<close>
  succeeds when it is called.
\<close>

record environment =
  argc :: int
  fgets_upper :: bool
  fopen_upper :: bool
  fgets_lower :: bool
  fopen_lower :: bool

text \<open>
  \<^verbatim>\<open>main\<close> either returns a status before the lattices are read, or reaches the loop
  \<^verbatim>\<open>while(1==1)\<close>, whose body contains no \<^verbatim>\<open>break\<close>, \<^verbatim>\<open>return\<close> or \<^verbatim>\<open>exit\<close>.
\<close>

datatype outcome = Return int | Sampling

definition main_startup :: "environment \<Rightarrow> outcome" where
  "main_startup e =
     (if argc e > 1 then
        (if \<not> fopen_upper e then Return 0
         else if \<not> fopen_lower e then Return 0
         else Sampling)
      else
        (if \<not> fgets_upper e then Return 0
         else if \<not> fopen_upper e then Return 0
         else if \<not> fgets_lower e then Return 0
         else if \<not> fopen_lower e then Return 0
         else Sampling))"

subsection \<open>The relabelling table of the specification\<close>

text \<open>
  A table of pairs \<open>pre \<rightarrow> post\<close>, applied to a type: a type that is no \<open>pre\<close> of the table
  stays as it is.
\<close>

definition table :: "(int \<times> int) list \<Rightarrow> int \<Rightarrow> int" where
  "table tab t = (case map_of tab t of Some t' \<Rightarrow> t' | None \<Rightarrow> t)"

definition retype :: "(int \<times> int) list \<Rightarrow> mstruct \<Rightarrow> mstruct" where
  "retype tab cell = cell\<lparr>type := table tab (type cell)\<rparr>"

text \<open>
  The lattice after a move as section 4.1 of the specification describes it: the base,
  the diagonal neighbour, the neighbour in the row and the neighbour in the column are
  relabelled by their tables, every other cell is as before.
\<close>

definition spec_up :: "(int \<Rightarrow> int \<Rightarrow> mstruct) \<Rightarrow> int \<Rightarrow> int \<Rightarrow> int \<Rightarrow> int \<Rightarrow> mstruct" where
  "spec_up m r c i j =
     (if i = r \<and> j = c then retype [(0, 4), (5, 1)] (m i j)
      else if i = r - 1 \<and> j = c + 1 then retype [(1, 4), (5, 0)] (m i j)
      else if i = r \<and> j = c + 1 then retype [(3, 5), (4, 2)] (m i j)
      else if i = r - 1 \<and> j = c then retype [(2, 5), (4, 3)] (m i j)
      else m i j)"

definition spec_down :: "(int \<Rightarrow> int \<Rightarrow> mstruct) \<Rightarrow> int \<Rightarrow> int \<Rightarrow> int \<Rightarrow> int \<Rightarrow> mstruct" where
  "spec_down m r c i j =
     (if i = r \<and> j = c then retype [(4, 1), (0, 5)] (m i j)
      else if i = r + 1 \<and> j = c - 1 then retype [(4, 0), (1, 5)] (m i j)
      else if i = r \<and> j = c - 1 then retype [(5, 2), (3, 4)] (m i j)
      else if i = r + 1 \<and> j = c then retype [(5, 3), (2, 4)] (m i j)
      else m i j)"

text \<open>The type of one cell changed by a function; a step of the proofs.\<close>

definition map_type :: "(int \<Rightarrow> int) \<Rightarrow> int \<Rightarrow> int \<Rightarrow> (int \<Rightarrow> int \<Rightarrow> mstruct) \<Rightarrow> int \<Rightarrow> int \<Rightarrow> mstruct" where
  "map_type f i j m = m(i := (m i)(j := (m i j)\<lparr>type := f (type (m i j))\<rparr>))"

definition map_height :: "(int \<Rightarrow> int) \<Rightarrow> int \<Rightarrow> int \<Rightarrow> (int \<Rightarrow> int \<Rightarrow> mstruct) \<Rightarrow> int \<Rightarrow> int \<Rightarrow> mstruct" where
  "map_height f i j m = m(i := (m i)(j := (m i j)\<lparr>height := f (height (m i j))\<rparr>))"

subsection \<open>Well-formed states\<close>

text \<open>The lattice of \<open>nrows\<close> by \<open>ncols\<close> cells fits the global array.\<close>

definition dims_ok :: "'d state \<Rightarrow> bool" where
  "dims_ok s \<longleftrightarrow> nrows s \<le> MAXROWS \<and> ncols s \<le> MAXCOLS"

definition in_lattice :: "'d state \<Rightarrow> int \<Rightarrow> int \<Rightarrow> bool" where
  "in_lattice s i j \<longleftrightarrow> 0 \<le> i \<and> i < nrows s \<and> 0 \<le> j \<and> j < ncols s"

text \<open>Every cell of the lattice holds one of the six vertex types.\<close>

definition types_ok :: "'d state \<Rightarrow> bool" where
  "types_ok s \<longleftrightarrow>
     (\<forall>i\<in>{0..<nrows s}. \<forall>j\<in>{0..<ncols s}. 0 \<le> type (matrix s i j) \<and> type (matrix s i j) \<le> 5)"

text \<open>
  The height invariant of the specification: the stored height of a cell is the number
  of cells of its row, from column 0 up to its own column, whose type is 0, 2 or 5; and
  the volume counter is the sum of the stored heights over the lattice.
\<close>

definition counted :: "int \<Rightarrow> int" where
  "counted t = (if t = 0 \<or> t = 2 \<or> t = 5 then 1 else 0)"

definition rowcount :: "(int \<Rightarrow> int \<Rightarrow> mstruct) \<Rightarrow> int \<Rightarrow> int \<Rightarrow> int" where
  "rowcount m i j = (\<Sum>k = 0..j. counted (type (m i k)))"

definition heights_ok :: "'d state \<Rightarrow> bool" where
  "heights_ok s \<longleftrightarrow>
     (\<forall>i\<in>{0..<nrows s}. \<forall>j\<in>{0..<ncols s}. height (matrix s i j) = rowcount (matrix s) i j)"

definition heights_sum :: "'d state \<Rightarrow> int" where
  "heights_sum s = (\<Sum>i = 0..<nrows s. \<Sum>j = 0..<ncols s. height (matrix s i j))"

definition volume_ok :: "'d state \<Rightarrow> bool" where
  "volume_ok s \<longleftrightarrow> matrixvol s = heights_sum s"

text \<open>
  What a flip does to the row count right of the cell whose height it moves: the gain at
  the right neighbour of an UP flip and the loss at the lower neighbour of a DOWN flip.
\<close>

definition up_gain :: "(int \<Rightarrow> int \<Rightarrow> mstruct) \<Rightarrow> int \<Rightarrow> int \<Rightarrow> int" where
  "up_gain m r c = (if type (m r (c + 1)) = 3 \<or> type (m r (c + 1)) = 4 then 1 else 0)"

definition down_loss :: "(int \<Rightarrow> int \<Rightarrow> mstruct) \<Rightarrow> int \<Rightarrow> int \<Rightarrow> int" where
  "down_loss m r c = (if type (m (r + 1) c) = 5 \<or> type (m (r + 1) c) = 2 then 1 else 0)"

text \<open>
  The two sums of claim C8: the indicator of the types 0, 2, 5 summed over the cells, and
  the same indicator weighted by the number of columns from the cell to the end of its
  row.
\<close>

definition indicator_sum :: "'d state \<Rightarrow> int" where
  "indicator_sum s = (\<Sum>i = 0..<nrows s. \<Sum>j = 0..<ncols s. counted (type (matrix s i j)))"

definition weighted_sum :: "'d state \<Rightarrow> int" where
  "weighted_sum s =
     (\<Sum>i = 0..<nrows s. \<Sum>j = 0..<ncols s. (ncols s - j) * counted (type (matrix s i j)))"

text \<open>The heights of the cells in a region set to their row counts.\<close>

definition with_heights :: "(int \<Rightarrow> int \<Rightarrow> bool) \<Rightarrow> 'd state \<Rightarrow> 'd state" where
  "with_heights P s =
     s\<lparr>matrix := (\<lambda>i j. if P i j then (matrix s i j)\<lparr>height := rowcount (matrix s) i j\<rparr>
                           else matrix s i j)\<rparr>"

text \<open>
  The byte \<^verbatim>\<open>fgetc\<close> returns at position \<open>k\<close> of a stream, and the types of the cells in a
  region set from a function.
\<close>

definition byte_at :: "8 word list \<Rightarrow> nat \<Rightarrow> int" where
  "byte_at data k = (if k < length data then uint (data ! k) else EOF)"

definition with_types :: "(int \<Rightarrow> int \<Rightarrow> bool) \<Rightarrow> (int \<Rightarrow> int \<Rightarrow> int) \<Rightarrow> 'd state \<Rightarrow> 'd state" where
  "with_types P f s =
     s\<lparr>matrix := (\<lambda>i j. if P i j then (matrix s i j)\<lparr>type := f i j\<rparr> else matrix s i j)\<rparr>"

subsection \<open>Example states\<close>

text \<open>
  A lattice given by its rows of pairs (type, height); cells outside the rows are zero,
  as the global array is before \<^verbatim>\<open>parse\<close>.
\<close>

definition lattice_of :: "(int \<times> int) list list \<Rightarrow> int \<Rightarrow> int \<Rightarrow> mstruct" where
  "lattice_of rows i j =
     (if 0 \<le> i \<and> nat i < length rows \<and> 0 \<le> j \<and> nat j < length (rows ! nat i)
      then \<lparr>type = fst (rows ! nat i ! nat j), height = snd (rows ! nat i ! nat j)\<rparr>
      else \<lparr>type = 0, height = 0\<rparr>)"

text \<open>
  Exact arithmetic on the reals, as one arithmetic to run the examples with; and the
  states of the examples over it, with all weights 1 and \<open>rho\<close> 0, as the global is
  before \<^verbatim>\<open>definerho\<close>.
\<close>

definition real_arith :: "real arith" where
  "real_arith = \<lparr>fmul = (*), fdiv = (/), fadd = (+), flt = (<), fge = (\<ge>)\<rparr>"

definition state_of :: "(int \<times> int) list list \<Rightarrow> int \<Rightarrow> int \<Rightarrow> int \<Rightarrow> real state" where
  "state_of rows r c vol =
     \<lparr>matrix = lattice_of rows, wts = (\<lambda>k. 1), rho = 0, nrows = r, ncols = c,
      matrixvol = vol, flipcompleted = 0, flipfailed = 0\<rparr>"

text \<open>
  Types \<open>2 5 / 0 3\<close>: the UP flip at \<open>(1, 0)\<close> is admissible and leads to \<open>5 0 / 4 5\<close>,
  where the DOWN flip at \<open>(0, 1)\<close> leads back.
\<close>

definition ex_up :: "real state" where
  "ex_up = state_of [[(2, 1), (5, 2)], [(0, 1), (3, 1)]] 2 2 5"

definition ex_down :: "real state" where
  "ex_down = state_of [[(5, 1), (0, 2)], [(4, 0), (5, 1)]] 2 2 4"

text \<open>
  Types \<open>0 5 / 0 0\<close> with the heights \<^verbatim>\<open>setheights\<close> gives them: the UP flip at \<open>(1, 0)\<close>
  is admissible, and its right neighbour \<open>(1, 1)\<close> has a type outside its table.
\<close>

definition ex_stale :: "real state" where
  "ex_stale = state_of [[(0, 1), (5, 2)], [(0, 1), (0, 2)]] 2 2 6"

text \<open>A 3 by 3 lattice whose centre admits both flips.\<close>

definition ex_bi :: "real state" where
  "ex_bi = state_of [[(1, 0), (4, 0), (1, 0)], [(5, 1), (0, 2), (3, 2)], [(1, 0), (5, 1), (1, 1)]]
             3 3 7"

text \<open>A 2 by 2 lattice before \<^verbatim>\<open>parse\<close>: the array is zero.\<close>

definition ex_blank :: "real state" where
  "ex_blank = state_of [] 2 2 0"

subsection \<open>Doubles that are small integers\<close>

text \<open>
  What the evaluation of the program on integer weights takes of the arithmetic: \<open>dbl n\<close>
  is the double with the integer value \<open>n\<close>, and a product, a sum, an exact quotient and
  the two tests of such doubles are those of the integers, as long as the integers
  involved are at most \<open>2^53\<close> in magnitude. IEEE 754 binary64 with correctly rounded
  operations is such an arithmetic: it represents these integers exactly.
\<close>

definition small :: "int \<Rightarrow> bool" where
  "small n \<longleftrightarrow> - (2 ^ 53) \<le> n \<and> n \<le> 2 ^ 53"

definition exact_on_ints :: "'d arith \<Rightarrow> (int \<Rightarrow> 'd) \<Rightarrow> bool" where
  "exact_on_ints A dbl \<longleftrightarrow>
     (\<forall>a b. small a \<and> small b \<and> small (a * b) \<longrightarrow> fmul A (dbl a) (dbl b) = dbl (a * b))
     \<and> (\<forall>a b. small a \<and> small b \<and> small (a + b) \<longrightarrow> fadd A (dbl a) (dbl b) = dbl (a + b))
     \<and> (\<forall>a b. small a \<and> small b \<and> b \<noteq> 0 \<and> b dvd a \<longrightarrow>
            fdiv A (dbl a) (dbl b) = dbl (a div b))
     \<and> (\<forall>a b. small a \<and> small b \<longrightarrow> flt A (dbl a) (dbl b) = (a < b))
     \<and> (\<forall>a b. small a \<and> small b \<longrightarrow> fge A (dbl a) (dbl b) = (a \<ge> b))"

text \<open>
  The lattice \<open>2 5 / 0 3\<close> of \<open>ex_up\<close> with the weights \<open>(10, 1, 1, 1, 2, 10)\<close> as doubles and
  \<open>rho\<close> zero: the UP flip at \<open>(1, 0)\<close> has base type 0, right type 3, upper type 2 and
  upper-right type 5, each a pre-type of its table.
\<close>

definition slip_weights :: "int \<Rightarrow> int" where
  "slip_weights k = (if k = 0 then 10 else if k = 4 then 2 else if k = 5 then 10 else 1)"

definition ex_slip :: "(int \<Rightarrow> 'd) \<Rightarrow> 'd state" where
  "ex_slip dbl =
     \<lparr>matrix = lattice_of [[(2, 1), (5, 2)], [(0, 1), (3, 1)]],
      wts = (\<lambda>k. dbl (slip_weights k)), rho = dbl 0, nrows = 2, ncols = 2,
      matrixvol = 5, flipcompleted = 0, flipfailed = 0\<rparr>"

section \<open>Flippability predicate\<close>

lemma in_lattice_in_array: "dims_ok s \<Longrightarrow> in_lattice s i j \<Longrightarrow> in_array i j"
  by (simp add: dims_ok_def in_lattice_def in_array_def)

lemma getisflippable_high:
  assumes "dims_ok s" "in_lattice s r c" "ty \<noteq> 0"
  shows "getisflippable s r c ty =
           Some (if r > 0 \<and> c < ncols s - 1
                    \<and> (type (matrix s r c) = 0 \<or> type (matrix s r c) = 5)
                    \<and> (type (matrix s (r - 1) (c + 1)) = 1 \<or> type (matrix s (r - 1) (c + 1)) = 5)
                 then 1 else 0)"
proof -
  have base: "in_array r c"
    using assms by (simp add: in_lattice_in_array)
  have diag: "in_array (r - 1) (c + 1)" if "r > 0" "c < ncols s - 1"
    using assms that by (simp add: dims_ok_def in_lattice_def in_array_def)
  show ?thesis
    using assms base diag
    by (simp add: getisflippable_def get_type_def in_lattice_def)
qed

lemma getisflippable_low:
  assumes "dims_ok s" "in_lattice s r c"
  shows "getisflippable s r c 0 =
           Some (if r < nrows s - 1 \<and> c > 0
                    \<and> (type (matrix s r c) = 0 \<or> type (matrix s r c) = 4)
                    \<and> (type (matrix s (r + 1) (c - 1)) = 1 \<or> type (matrix s (r + 1) (c - 1)) = 4)
                 then 1 else 0)"
proof -
  have base: "in_array r c"
    using assms by (simp add: in_lattice_in_array)
  have diag: "in_array (r + 1) (c - 1)" if "r < nrows s - 1" "c > 0"
    using assms that by (simp add: dims_ok_def in_lattice_def in_array_def)
  show ?thesis
    using assms base diag
    by (simp add: getisflippable_def get_type_def in_lattice_def)
qed

lemma getisflippable_outside:
  "\<not> in_lattice s r c \<Longrightarrow> getisflippable s r c ty = Some 0"
  by (auto simp add: getisflippable_def in_lattice_def)

text \<open>
  Claim C2. On a lattice that fits the array, for a cell \<open>(r, c)\<close> of the lattice,
  \<^verbatim>\<open>getisflippable\<close> returns 1 for the direction UP exactly when \<open>r > 0\<close>, \<open>c < C - 1\<close>, the
  base type is 0 or 5 and the type of the upper-right cell \<open>(r - 1, c + 1)\<close> is 1 or 5; it
  returns 1 for DOWN exactly when \<open>r < R - 1\<close>, \<open>c > 0\<close>, the base type is 0 or 4 and the type
  of the lower-left cell \<open>(r + 1, c - 1)\<close> is 1 or 4. For a position outside the lattice it
  returns 0 for either direction, without reading any cell (so on every state, whatever
  the dimensions).
\<close>

theorem getisflippable_iff:
  "(dims_ok s \<and> in_lattice s r c \<longrightarrow>
      (getisflippable s r c HIGH = Some 1 \<longleftrightarrow>
         r > 0 \<and> c < ncols s - 1
         \<and> (type (matrix s r c) = 0 \<or> type (matrix s r c) = 5)
         \<and> (type (matrix s (r - 1) (c + 1)) = 1 \<or> type (matrix s (r - 1) (c + 1)) = 5))
    \<and> (getisflippable s r c LOW = Some 1 \<longleftrightarrow>
         r < nrows s - 1 \<and> c > 0
         \<and> (type (matrix s r c) = 0 \<or> type (matrix s r c) = 4)
         \<and> (type (matrix s (r + 1) (c - 1)) = 1 \<or> type (matrix s (r + 1) (c - 1)) = 4))
    \<and> getisflippable s r c HIGH \<in> {Some 0, Some 1}
    \<and> getisflippable s r c LOW \<in> {Some 0, Some 1})
   \<and> (\<not> in_lattice s r c \<longrightarrow>
        getisflippable s r c HIGH = Some 0 \<and> getisflippable s r c LOW = Some 0)"
proof (intro conjI impI)
  assume a: "dims_ok s \<and> in_lattice s r c"
  then have h: "dims_ok s" "in_lattice s r c" by simp_all
  show "getisflippable s r c HIGH = Some 1 \<longleftrightarrow>
         r > 0 \<and> c < ncols s - 1
         \<and> (type (matrix s r c) = 0 \<or> type (matrix s r c) = 5)
         \<and> (type (matrix s (r - 1) (c + 1)) = 1 \<or> type (matrix s (r - 1) (c + 1)) = 5)"
    using getisflippable_high [OF h, of HIGH] by (simp add: HIGH_def)
  show "getisflippable s r c LOW = Some 1 \<longleftrightarrow>
         r < nrows s - 1 \<and> c > 0
         \<and> (type (matrix s r c) = 0 \<or> type (matrix s r c) = 4)
         \<and> (type (matrix s (r + 1) (c - 1)) = 1 \<or> type (matrix s (r + 1) (c - 1)) = 4)"
    using getisflippable_low [OF h] by (simp add: LOW_def)
  show "getisflippable s r c HIGH \<in> {Some 0, Some 1}"
    using getisflippable_high [OF h, of HIGH] by (simp add: HIGH_def)
  show "getisflippable s r c LOW \<in> {Some 0, Some 1}"
    using getisflippable_low [OF h] by (simp add: LOW_def)
next
  assume "\<not> in_lattice s r c"
  then show "getisflippable s r c HIGH = Some 0" by (rule getisflippable_outside)
next
  assume "\<not> in_lattice s r c"
  then show "getisflippable s r c LOW = Some 0" by (rule getisflippable_outside)
qed

theorem getisflippable_iff_witness:
  "dims_ok ex_up \<and> in_lattice ex_up 1 0
   \<and> getisflippable ex_up 1 0 HIGH = Some 1
   \<and> getisflippable ex_up 1 0 LOW = Some 0
   \<and> getisflippable ex_up 2 0 HIGH = Some 0
   \<and> getisflippable ex_up 1 (- 1) LOW = Some 0"
  using getisflippable_iff [of ex_up 1 0] getisflippable_iff [of ex_up 2 0]
    getisflippable_iff [of ex_up 1 "- 1"]
  by (auto simp add: ex_up_def state_of_def lattice_of_def dims_ok_def in_lattice_def
      MAXROWS_def MAXCOLS_def)

section \<open>Evaluating the examples\<close>

lemma ball_int_upto: "(\<forall>i\<in>{0..<n}. P i) \<longleftrightarrow> list_all P [0..n - 1]"
  by (auto simp add: list_all_iff)

lemma sum_int_upto: "(\<Sum>k = i..j. f k) = sum_list (map f [i..j])"
  by (simp add: sum_list_distinct_conv_sum_set)

lemma sum_int_upto_less: "(\<Sum>k = 0..<n. f k) = sum_list (map f [0..n - 1])"
proof -
  have "{0..<n} = {0..n - 1}" by auto
  then show ?thesis by (simp add: sum_int_upto)
qed

lemma ex_dims: "dims_ok ex_up" "dims_ok ex_down" "dims_ok ex_stale"
  by (simp_all add: dims_ok_def ex_up_def ex_down_def ex_stale_def state_of_def
      MAXROWS_def MAXCOLS_def)

lemma ex_types: "types_ok ex_up" "types_ok ex_down" "types_ok ex_stale"
  by (simp_all add: types_ok_def ex_up_def ex_down_def ex_stale_def state_of_def lattice_of_def
      ball_int_upto upto.simps)

lemma ex_flippable:
  "getisflippable ex_up 1 0 HIGH = Some 1"
  "getisflippable ex_down 0 1 LOW = Some 1"
  "getisflippable ex_stale 1 0 HIGH = Some 1"
  by (simp_all add: getisflippable_def get_type_def in_array_def MAXROWS_def MAXCOLS_def
      HIGH_def LOW_def ex_up_def ex_down_def ex_stale_def state_of_def lattice_of_def)

lemma ex_heights: "heights_ok ex_up" "heights_ok ex_down" "heights_ok ex_stale"
  by (simp_all add: heights_ok_def rowcount_def counted_def ex_up_def ex_down_def ex_stale_def
      state_of_def lattice_of_def ball_int_upto sum_int_upto upto.simps)

lemma ex_volume: "volume_ok ex_up" "volume_ok ex_down" "volume_ok ex_stale"
  by (simp_all add: volume_ok_def heights_sum_def ex_up_def ex_down_def ex_stale_def
      state_of_def lattice_of_def sum_int_upto_less upto.simps)

section \<open>Flip execution\<close>

subsection \<open>The eight statements as one relabelling\<close>

lemma relabel_in:
  "in_array i j \<Longrightarrow>
   relabel i j a b s = Some (s\<lparr>matrix := map_type (\<lambda>t. if t = a then b else t) i j (matrix s)\<rparr>)"
  by (simp add: relabel_def get_type_def set_type_def map_type_def)

lemma map_type_apply:
  "map_type f i j m i' j' = (if i' = i \<and> j' = j then (m i j)\<lparr>type := f (type (m i j))\<rparr> else m i' j')"
  by (simp add: map_type_def)

lemma flippable_high_cells:
  assumes "dims_ok s" "getisflippable s r c HIGH = Some 1"
  shows "in_lattice s r c" "in_lattice s (r - 1) (c + 1)" "in_lattice s r (c + 1)"
    "in_lattice s (r - 1) c"
    "type (matrix s r c) = 0 \<or> type (matrix s r c) = 5"
    "type (matrix s (r - 1) (c + 1)) = 1 \<or> type (matrix s (r - 1) (c + 1)) = 5"
proof -
  have i: "in_lattice s r c"
    using assms(2) getisflippable_outside [of s r c HIGH] by auto
  from getisflippable_high [OF assms(1) i, of HIGH] assms(2)
  have *: "r > 0 \<and> c < ncols s - 1
      \<and> (type (matrix s r c) = 0 \<or> type (matrix s r c) = 5)
      \<and> (type (matrix s (r - 1) (c + 1)) = 1 \<or> type (matrix s (r - 1) (c + 1)) = 5)"
    by (simp add: HIGH_def split: if_splits)
  show "in_lattice s r c" by (rule i)
  show "in_lattice s (r - 1) (c + 1)" "in_lattice s r (c + 1)" "in_lattice s (r - 1) c"
    using i * by (simp_all add: in_lattice_def)
  show "type (matrix s r c) = 0 \<or> type (matrix s r c) = 5"
    "type (matrix s (r - 1) (c + 1)) = 1 \<or> type (matrix s (r - 1) (c + 1)) = 5"
    using * by simp_all
qed

lemma updatepositions_high:
  assumes "in_array r c" "in_array (r - 1) (c + 1)" "in_array r (c + 1)" "in_array (r - 1) c"
  shows "updatepositions s r c HIGH = Some (s\<lparr>matrix := spec_up (matrix s) r c\<rparr>)"
proof -
  have "updatepositions s r c HIGH = Some (s\<lparr>matrix :=
      map_type (\<lambda>t. if t = 4 then 3 else t) (r - 1) c
       (map_type (\<lambda>t. if t = 2 then 5 else t) (r - 1) c
        (map_type (\<lambda>t. if t = 4 then 2 else t) r (c + 1)
         (map_type (\<lambda>t. if t = 3 then 5 else t) r (c + 1)
          (map_type (\<lambda>t. if t = 5 then 0 else t) (r - 1) (c + 1)
           (map_type (\<lambda>t. if t = 1 then 4 else t) (r - 1) (c + 1)
            (map_type (\<lambda>t. if t = 5 then 1 else t) r c
             (map_type (\<lambda>t. if t = 0 then 4 else t) r c (matrix s))))))))\<rparr>)"
    using assms by (simp add: updatepositions_def HIGH_def relabel_in)
  also have "map_type (\<lambda>t. if t = 4 then 3 else t) (r - 1) c
       (map_type (\<lambda>t. if t = 2 then 5 else t) (r - 1) c
        (map_type (\<lambda>t. if t = 4 then 2 else t) r (c + 1)
         (map_type (\<lambda>t. if t = 3 then 5 else t) r (c + 1)
          (map_type (\<lambda>t. if t = 5 then 0 else t) (r - 1) (c + 1)
           (map_type (\<lambda>t. if t = 1 then 4 else t) (r - 1) (c + 1)
            (map_type (\<lambda>t. if t = 5 then 1 else t) r c
             (map_type (\<lambda>t. if t = 0 then 4 else t) r c (matrix s))))))))
      = spec_up (matrix s) r c"
    by (intro ext) (simp add: map_type_apply spec_up_def retype_def table_def)
  finally show ?thesis .
qed

lemma flippable_low_cells:
  assumes "dims_ok s" "getisflippable s r c LOW = Some 1"
  shows "in_lattice s r c" "in_lattice s (r + 1) (c - 1)" "in_lattice s r (c - 1)"
    "in_lattice s (r + 1) c"
    "type (matrix s r c) = 0 \<or> type (matrix s r c) = 4"
    "type (matrix s (r + 1) (c - 1)) = 1 \<or> type (matrix s (r + 1) (c - 1)) = 4"
proof -
  have i: "in_lattice s r c"
    using assms(2) getisflippable_outside [of s r c LOW] by auto
  from getisflippable_low [OF assms(1) i] assms(2)
  have *: "r < nrows s - 1 \<and> c > 0
      \<and> (type (matrix s r c) = 0 \<or> type (matrix s r c) = 4)
      \<and> (type (matrix s (r + 1) (c - 1)) = 1 \<or> type (matrix s (r + 1) (c - 1)) = 4)"
    by (simp add: LOW_def split: if_splits)
  show "in_lattice s r c" by (rule i)
  show "in_lattice s (r + 1) (c - 1)" "in_lattice s r (c - 1)" "in_lattice s (r + 1) c"
    using i * by (simp_all add: in_lattice_def)
  show "type (matrix s r c) = 0 \<or> type (matrix s r c) = 4"
    "type (matrix s (r + 1) (c - 1)) = 1 \<or> type (matrix s (r + 1) (c - 1)) = 4"
    using * by simp_all
qed

lemma updatepositions_low:
  assumes "in_array r c" "in_array (r + 1) (c - 1)" "in_array r (c - 1)" "in_array (r + 1) c"
  shows "updatepositions s r c LOW = Some (s\<lparr>matrix := spec_down (matrix s) r c\<rparr>)"
proof -
  have "updatepositions s r c LOW = Some (s\<lparr>matrix :=
      map_type (\<lambda>t. if t = 2 then 4 else t) (r + 1) c
       (map_type (\<lambda>t. if t = 5 then 3 else t) (r + 1) c
        (map_type (\<lambda>t. if t = 3 then 4 else t) r (c - 1)
         (map_type (\<lambda>t. if t = 5 then 2 else t) r (c - 1)
          (map_type (\<lambda>t. if t = 1 then 5 else t) (r + 1) (c - 1)
           (map_type (\<lambda>t. if t = 4 then 0 else t) (r + 1) (c - 1)
            (map_type (\<lambda>t. if t = 0 then 5 else t) r c
             (map_type (\<lambda>t. if t = 4 then 1 else t) r c (matrix s))))))))\<rparr>)"
    using assms by (simp add: updatepositions_def LOW_def relabel_in)
  also have "map_type (\<lambda>t. if t = 2 then 4 else t) (r + 1) c
       (map_type (\<lambda>t. if t = 5 then 3 else t) (r + 1) c
        (map_type (\<lambda>t. if t = 3 then 4 else t) r (c - 1)
         (map_type (\<lambda>t. if t = 5 then 2 else t) r (c - 1)
          (map_type (\<lambda>t. if t = 1 then 5 else t) (r + 1) (c - 1)
           (map_type (\<lambda>t. if t = 4 then 0 else t) (r + 1) (c - 1)
            (map_type (\<lambda>t. if t = 0 then 5 else t) r c
             (map_type (\<lambda>t. if t = 4 then 1 else t) r c (matrix s))))))))
      = spec_down (matrix s) r c"
    by (intro ext) (simp add: map_type_apply spec_down_def retype_def table_def)
  finally show ?thesis .
qed

lemma map_height_apply:
  "map_height f i j m i' j' =
     (if i' = i \<and> j' = j then (m i j)\<lparr>height := f (height (m i j))\<rparr> else m i' j')"
  by (simp add: map_height_def)

lemma executeflip_high:
  assumes "in_array r c" "in_array (r - 1) (c + 1)" "in_array r (c + 1)" "in_array (r - 1) c"
  shows "executeflip s r c HIGH =
           Some (s\<lparr>matrix := map_height (\<lambda>h. h - 1) r c (spec_up (matrix s) r c),
                   matrixvol := matrixvol s - 1\<rparr>)"
  using assms(1)
  by (simp add: executeflip_def updatepositions_high [OF assms] get_height_def set_height_def
      map_height_def) (simp add: HIGH_def)

lemma executeflip_low:
  assumes "in_array r c" "in_array (r + 1) (c - 1)" "in_array r (c - 1)" "in_array (r + 1) c"
  shows "executeflip s r c LOW =
           Some (s\<lparr>matrix := map_height (\<lambda>h. h + 1) (r + 1) (c - 1) (spec_down (matrix s) r c),
                   matrixvol := matrixvol s + 1\<rparr>)"
  using assms(2)
  by (simp add: executeflip_def updatepositions_low [OF assms] get_height_def set_height_def
      map_height_def) (simp add: LOW_def)

lemma flip_high_in_array:
  assumes "dims_ok s" "getisflippable s r c HIGH = Some 1"
  shows "in_array r c" "in_array (r - 1) (c + 1)" "in_array r (c + 1)" "in_array (r - 1) c"
  using flippable_high_cells(1-4) [OF assms] assms(1) by (simp_all add: in_lattice_in_array)

lemma flip_low_in_array:
  assumes "dims_ok s" "getisflippable s r c LOW = Some 1"
  shows "in_array r c" "in_array (r + 1) (c - 1)" "in_array r (c - 1)" "in_array (r + 1) c"
  using flippable_low_cells(1-4) [OF assms] assms(1) by (simp_all add: in_lattice_in_array)

lemma table_range:
  "0 \<le> t \<and> t \<le> 5 \<Longrightarrow> 0 \<le> table [(0, 4), (5, 1)] t \<and> table [(0, 4), (5, 1)] t \<le> 5"
  "0 \<le> t \<and> t \<le> 5 \<Longrightarrow> 0 \<le> table [(1, 4), (5, 0)] t \<and> table [(1, 4), (5, 0)] t \<le> 5"
  "0 \<le> t \<and> t \<le> 5 \<Longrightarrow> 0 \<le> table [(3, 5), (4, 2)] t \<and> table [(3, 5), (4, 2)] t \<le> 5"
  "0 \<le> t \<and> t \<le> 5 \<Longrightarrow> 0 \<le> table [(2, 5), (4, 3)] t \<and> table [(2, 5), (4, 3)] t \<le> 5"
  "0 \<le> t \<and> t \<le> 5 \<Longrightarrow> 0 \<le> table [(4, 1), (0, 5)] t \<and> table [(4, 1), (0, 5)] t \<le> 5"
  "0 \<le> t \<and> t \<le> 5 \<Longrightarrow> 0 \<le> table [(4, 0), (1, 5)] t \<and> table [(4, 0), (1, 5)] t \<le> 5"
  "0 \<le> t \<and> t \<le> 5 \<Longrightarrow> 0 \<le> table [(5, 2), (3, 4)] t \<and> table [(5, 2), (3, 4)] t \<le> 5"
  "0 \<le> t \<and> t \<le> 5 \<Longrightarrow> 0 \<le> table [(5, 3), (2, 4)] t \<and> table [(5, 3), (2, 4)] t \<le> 5"
  by (simp_all add: table_def)

lemma spec_up_type_range:
  assumes "0 \<le> type (m i j) \<and> type (m i j) \<le> 5"
  shows "0 \<le> type (spec_up m r c i j) \<and> type (spec_up m r c i j) \<le> 5"
  using assms table_range(1-4) [of "type (m i j)"]
  by (auto simp add: spec_up_def retype_def)

lemma spec_down_type_range:
  assumes "0 \<le> type (m i j) \<and> type (m i j) \<le> 5"
  shows "0 \<le> type (spec_down m r c i j) \<and> type (spec_down m r c i j) \<le> 5"
  using assms table_range(5-8) [of "type (m i j)"]
  by (auto simp add: spec_down_def retype_def)

lemma type_map_height [simp]: "type (map_height f i j m i' j') = type (m i' j')"
  by (simp add: map_height_apply)


text \<open>
  Claim C1. On a lattice that fits the array, at a flippable cell \<open>(r, c)\<close> with direction
  UP or DOWN, \<^verbatim>\<open>updatepositions\<close> returns normally and leaves the state in which the base,
  the diagonal neighbour, the row neighbour and the column neighbour carry the type their
  table of section 4.1 assigns (for UP: base \<open>0\<rightarrow>4, 5\<rightarrow>1\<close>, upper-right \<open>1\<rightarrow>4, 5\<rightarrow>0\<close>, right
  \<open>3\<rightarrow>5, 4\<rightarrow>2\<close>, up \<open>2\<rightarrow>5, 4\<rightarrow>3\<close>; for DOWN: base \<open>4\<rightarrow>1, 0\<rightarrow>5\<close>, lower-left \<open>4\<rightarrow>0, 1\<rightarrow>5\<close>,
  left \<open>5\<rightarrow>2, 3\<rightarrow>4\<close>, down \<open>5\<rightarrow>3, 2\<rightarrow>4\<close>), a type outside the table stays, and every other
  cell, every height and every other global is unchanged. The cell types need not lie
  in \<open>{0..5}\<close> for this.
\<close>

theorem updatepositions_table:
  assumes "dims_ok s" "getisflippable s r c d = Some 1"
  shows "(d = HIGH \<longrightarrow> updatepositions s r c d = Some (s\<lparr>matrix := spec_up (matrix s) r c\<rparr>))
       \<and> (d = LOW \<longrightarrow> updatepositions s r c d = Some (s\<lparr>matrix := spec_down (matrix s) r c\<rparr>))"
  using assms updatepositions_high [OF flip_high_in_array, of s r c s]
    updatepositions_low [OF flip_low_in_array, of s r c s]
  by auto

theorem updatepositions_table_witness:
  "dims_ok ex_up \<and> getisflippable ex_up 1 0 HIGH = Some 1
   \<and> updatepositions ex_up 1 0 HIGH = Some (ex_up\<lparr>matrix := spec_up (matrix ex_up) 1 0\<rparr>)
   \<and> type (spec_up (matrix ex_up) 1 0 1 0) = 4
   \<and> type (spec_up (matrix ex_up) 1 0 0 1) = 0
   \<and> type (spec_up (matrix ex_up) 1 0 1 1) = 5
   \<and> type (spec_up (matrix ex_up) 1 0 0 0) = 5
   \<and> dims_ok ex_down \<and> getisflippable ex_down 0 1 LOW = Some 1
   \<and> updatepositions ex_down 0 1 LOW = Some (ex_down\<lparr>matrix := spec_down (matrix ex_down) 0 1\<rparr>)
   \<and> type (spec_down (matrix ex_down) 0 1 0 1) = 5
   \<and> type (spec_down (matrix ex_down) 0 1 1 0) = 0
   \<and> type (spec_down (matrix ex_down) 0 1 0 0) = 2
   \<and> type (spec_down (matrix ex_down) 0 1 1 1) = 3"
proof -
  have d: "dims_ok ex_up" "dims_ok ex_down"
    by (simp_all add: ex_dims)
  have f: "getisflippable ex_up 1 0 HIGH = Some 1" "getisflippable ex_down 0 1 LOW = Some 1"
    by (simp_all add: ex_flippable)
  have t: "type (spec_up (matrix ex_up) 1 0 1 0) = 4"
    "type (spec_up (matrix ex_up) 1 0 0 1) = 0"
    "type (spec_up (matrix ex_up) 1 0 1 1) = 5"
    "type (spec_up (matrix ex_up) 1 0 0 0) = 5"
    "type (spec_down (matrix ex_down) 0 1 0 1) = 5"
    "type (spec_down (matrix ex_down) 0 1 1 0) = 0"
    "type (spec_down (matrix ex_down) 0 1 0 0) = 2"
    "type (spec_down (matrix ex_down) 0 1 1 1) = 3"
    by (simp_all add: spec_up_def spec_down_def retype_def table_def ex_up_def ex_down_def
        state_of_def lattice_of_def)
  show ?thesis
    using updatepositions_table [OF d(1) f(1)] updatepositions_table [OF d(2) f(2)] d f t
    by simp
qed

text \<open>
  Claim C4. On a lattice that fits the array and whose cell types all lie in \<open>{0..5}\<close>, an
  accepted flip (\<^verbatim>\<open>executeflip\<close> at a flippable cell, UP or DOWN) returns normally and every
  cell type of the state it leaves lies in \<open>{0..5}\<close> again.
\<close>

theorem executeflip_types_ok:
  assumes "dims_ok s" "types_ok s" "getisflippable s r c d = Some 1" "d = HIGH \<or> d = LOW"
  shows "\<exists>s'. executeflip s r c d = Some s' \<and> types_ok s'"
proof -
  consider "d = HIGH" | "d = LOW" using assms(4) by blast
  then show ?thesis
  proof cases
    case 1
    then have f: "getisflippable s r c HIGH = Some 1" using assms(3) by simp
    show ?thesis
      using assms(2) spec_up_type_range [of "matrix s" _ _ r c]
      by (simp add: 1 executeflip_high [OF flip_high_in_array [OF assms(1) f]] types_ok_def)
  next
    case 2
    then have f: "getisflippable s r c LOW = Some 1" using assms(3) by simp
    show ?thesis
      using assms(2) spec_down_type_range [of "matrix s" _ _ r c]
      by (simp add: 2 executeflip_low [OF flip_low_in_array [OF assms(1) f]] types_ok_def)
  qed
qed

theorem executeflip_types_ok_witness:
  "dims_ok ex_up \<and> types_ok ex_up \<and> getisflippable ex_up 1 0 HIGH = Some 1
   \<and> executeflip ex_up 1 0 HIGH \<noteq> None \<and> types_ok (the (executeflip ex_up 1 0 HIGH))
   \<and> dims_ok ex_down \<and> types_ok ex_down \<and> getisflippable ex_down 0 1 LOW = Some 1
   \<and> executeflip ex_down 0 1 LOW \<noteq> None \<and> types_ok (the (executeflip ex_down 0 1 LOW))"
proof -
  have d: "dims_ok ex_up" "dims_ok ex_down"
    by (simp_all add: ex_dims)
  have t: "types_ok ex_up" "types_ok ex_down"
    by (simp_all add: ex_types)
  have f: "getisflippable ex_up 1 0 HIGH = Some 1" "getisflippable ex_down 0 1 LOW = Some 1"
    by (simp_all add: ex_flippable)
  show ?thesis
    using executeflip_types_ok [OF d(1) t(1) f(1)] executeflip_types_ok [OF d(2) t(2) f(2)] d t f
    by auto
qed

subsection \<open>Heights and volume\<close>

lemma counted_table_same:
  "counted (table [(2, 5), (4, 3)] t) = counted t"
  "counted (table [(1, 4), (5, 0)] t) = counted t"
  "counted (table [(4, 1), (0, 5)] t) = counted t"
  "counted (table [(5, 2), (3, 4)] t) = counted t"
  by (simp_all add: counted_def table_def)

lemma counted_table_moves:
  "t = 0 \<or> t = 5 \<Longrightarrow> counted (table [(0, 4), (5, 1)] t) = counted t - 1"
  "counted (table [(3, 5), (4, 2)] t) = counted t + (if t = 3 \<or> t = 4 then 1 else 0)"
  "t = 1 \<or> t = 4 \<Longrightarrow> counted (table [(4, 0), (1, 5)] t) = counted t + 1"
  "counted (table [(5, 3), (2, 4)] t) = counted t - (if t = 5 \<or> t = 2 then 1 else 0)"
  by (auto simp add: counted_def table_def)

lemma sum_delta_int:
  "(\<Sum>k = 0..j. if k = a then (d::int) else 0) = (if 0 \<le> a \<and> a \<le> (j::int) then d else 0)"
  by simp

lemma counted_spec_up:
  assumes "type (m r c) = 0 \<or> type (m r c) = 5"
  shows "counted (type (spec_up m r c i k)) =
           counted (type (m i k)) + (if i = r \<and> k = c + 1 then up_gain m r c else 0)
             - (if i = r \<and> k = c then 1 else 0)"
  using assms counted_table_moves(1) [of "type (m r c)"]
  by (simp add: spec_up_def retype_def counted_table_same counted_table_moves(2) up_gain_def)

lemma rowcount_spec_up:
  assumes "type (m r c) = 0 \<or> type (m r c) = 5" "0 \<le> c"
  shows "rowcount (spec_up m r c) i j =
           rowcount m i j + (if i = r \<and> c + 1 \<le> j then up_gain m r c else 0)
             - (if i = r \<and> c \<le> j then 1 else 0)"
proof (cases "i = r")
  case True
  have "rowcount (spec_up m r c) r j =
      (\<Sum>k = 0..j. counted (type (m r k)) + (if k = c + 1 then up_gain m r c else 0)
         - (if k = c then 1 else 0))"
    unfolding rowcount_def by (rule sum.cong) (simp_all add: counted_spec_up [of m r c, OF assms(1)])
  also have "\<dots> = rowcount m r j + (if 0 \<le> c + 1 \<and> c + 1 \<le> j then up_gain m r c else 0)
      - (if 0 \<le> c \<and> c \<le> j then 1 else 0)"
    unfolding rowcount_def sum_subtractf sum.distrib sum_delta_int ..
  finally show ?thesis using True assms(2) by simp
next
  case False
  then show ?thesis
    by (simp add: rowcount_def counted_spec_up [of m r c, OF assms(1)])
qed

lemma counted_spec_down:
  assumes "type (m (r + 1) (c - 1)) = 1 \<or> type (m (r + 1) (c - 1)) = 4"
  shows "counted (type (spec_down m r c i k)) =
           counted (type (m i k)) + (if i = r + 1 \<and> k = c - 1 then 1 else 0)
             - (if i = r + 1 \<and> k = c then down_loss m r c else 0)"
  using assms counted_table_moves(3) [of "type (m (r + 1) (c - 1))"]
  by (simp add: spec_down_def retype_def counted_table_same counted_table_moves(4) down_loss_def)

lemma rowcount_spec_down:
  assumes "type (m (r + 1) (c - 1)) = 1 \<or> type (m (r + 1) (c - 1)) = 4" "0 < c"
  shows "rowcount (spec_down m r c) i j =
           rowcount m i j + (if i = r + 1 \<and> c - 1 \<le> j then 1 else 0)
             - (if i = r + 1 \<and> c \<le> j then down_loss m r c else 0)"
proof (cases "i = r + 1")
  case True
  have "rowcount (spec_down m r c) (r + 1) j =
      (\<Sum>k = 0..j. counted (type (m (r + 1) k)) + (if k = c - 1 then 1 else 0)
         - (if k = c then down_loss m r c else 0))"
    unfolding rowcount_def by (rule sum.cong) (simp_all add: counted_spec_down [of m r c, OF assms(1)])
  also have "\<dots> = rowcount m (r + 1) j + (if 0 \<le> c - 1 \<and> c - 1 \<le> j then 1 else 0)
      - (if 0 \<le> c \<and> c \<le> j then down_loss m r c else 0)"
    unfolding rowcount_def sum_subtractf sum.distrib sum_delta_int ..
  finally show ?thesis using True assms(2) by simp
next
  case False
  then show ?thesis
    by (simp add: rowcount_def counted_spec_down [of m r c, OF assms(1)])
qed

lemma rowcount_map_height [simp]: "rowcount (map_height f a b m) i j = rowcount m i j"
  by (simp add: rowcount_def)

lemma height_spec_up [simp]: "height (spec_up m r c i j) = height (m i j)"
  by (simp add: spec_up_def retype_def)

lemma height_spec_down [simp]: "height (spec_down m r c i j) = height (m i j)"
  by (simp add: spec_down_def retype_def)

lemma height_map_height:
  "height (map_height f a b m i j) = (if i = a \<and> j = b then f (height (m i j)) else height (m i j))"
  by (simp add: map_height_apply)

lemma sum_one_cell:
  assumes "0 \<le> a" "a < (R::int)" "0 \<le> b" "b < (C::int)"
  shows "(\<Sum>i = 0..<R. \<Sum>j = 0..<C. h i j + (if i = a \<and> j = b then d else 0))
       = (\<Sum>i = 0..<R. \<Sum>j = 0..<C. h i j) + (d::int)"
proof -
  have inner: "(\<Sum>j = 0..<C. if i = a \<and> j = b then d else 0) = (if i = a then d else 0)" for i
    using assms by (simp add: sum.delta)
  have "(\<Sum>i = 0..<R. \<Sum>j = 0..<C. h i j + (if i = a \<and> j = b then d else 0))
      = (\<Sum>i = 0..<R. (\<Sum>j = 0..<C. h i j) + (if i = a then d else 0))"
    by (simp add: sum.distrib inner)
  also have "\<dots> = (\<Sum>i = 0..<R. \<Sum>j = 0..<C. h i j) + d"
    using assms by (simp add: sum.distrib sum.delta)
  finally show ?thesis .
qed

lemma executeflip_high_invariant:
  assumes d: "dims_ok s" and h: "heights_ok s" and v: "volume_ok s"
    and f: "getisflippable s r c HIGH = Some 1"
  shows "\<exists>s'. executeflip s r c HIGH = Some s' \<and> volume_ok s'
           \<and> (heights_ok s' \<longleftrightarrow> type (matrix s r (c + 1)) = 3 \<or> type (matrix s r (c + 1)) = 4)"
proof -
  let ?s' = "s\<lparr>matrix := map_height (\<lambda>h. h - 1) r c (spec_up (matrix s) r c),
                 matrixvol := matrixvol s - 1\<rparr>"
  note cells = flippable_high_cells [OF d f]
  have c0: "0 \<le> c" and rc: "0 \<le> r" "r < nrows s" "c < ncols s" and c1: "c + 1 < ncols s"
    using cells(1,3) by (simp_all add: in_lattice_def)
  have e: "executeflip s r c HIGH = Some ?s'"
    by (rule executeflip_high [OF flip_high_in_array [OF d f]])
  have rw: "rowcount (spec_up (matrix s) r c) i j =
      rowcount (matrix s) i j + (if i = r \<and> c + 1 \<le> j then up_gain (matrix s) r c else 0)
        - (if i = r \<and> c \<le> j then 1 else 0)" for i j
    by (rule rowcount_spec_up [of "matrix s" r c, OF cells(5) c0])
  have "heights_ok ?s'" if "up_gain (matrix s) r c = 1"
    using h that by (auto simp add: heights_ok_def height_map_height rw)
  moreover have "up_gain (matrix s) r c = 1" if ok: "heights_ok ?s'"
  proof -
    have "height (matrix ?s' r (c + 1)) = rowcount (matrix ?s') r (c + 1)"
      using ok rc c0 c1 by (simp add: heights_ok_def)
    moreover have "height (matrix s r (c + 1)) = rowcount (matrix s) r (c + 1)"
      using h rc c0 c1 by (simp add: heights_ok_def)
    ultimately show ?thesis
      by (simp add: height_map_height rw)
  qed
  ultimately have hs: "heights_ok ?s' \<longleftrightarrow> type (matrix s r (c + 1)) = 3 \<or> type (matrix s r (c + 1)) = 4"
    by (auto simp add: up_gain_def split: if_splits)
  have "heights_sum ?s' = heights_sum s - 1"
  proof -
    have "heights_sum ?s' =
        (\<Sum>i = 0..<nrows s. \<Sum>j = 0..<ncols s.
           height (matrix s i j) + (if i = r \<and> j = c then - 1 else 0))"
      unfolding heights_sum_def
      by (auto intro!: sum.cong simp add: height_map_height)
    also have "\<dots> = heights_sum s + (- 1)"
      unfolding heights_sum_def by (rule sum_one_cell) (use c0 rc in simp_all)
    finally show ?thesis by simp
  qed
  then have "volume_ok ?s'"
    using v by (simp add: volume_ok_def)
  then show ?thesis using e hs by simp
qed

lemma executeflip_low_invariant:
  assumes d: "dims_ok s" and h: "heights_ok s" and v: "volume_ok s"
    and f: "getisflippable s r c LOW = Some 1"
  shows "\<exists>s'. executeflip s r c LOW = Some s' \<and> volume_ok s'
           \<and> (heights_ok s' \<longleftrightarrow> type (matrix s (r + 1) c) = 5 \<or> type (matrix s (r + 1) c) = 2)"
proof -
  let ?s' = "s\<lparr>matrix := map_height (\<lambda>h. h + 1) (r + 1) (c - 1) (spec_down (matrix s) r c),
                 matrixvol := matrixvol s + 1\<rparr>"
  note cells = flippable_low_cells [OF d f]
  have c0: "0 < c" and rc: "0 \<le> r + 1" "r + 1 < nrows s" "c - 1 < ncols s" "c < ncols s"
    using cells(1,2) by (simp_all add: in_lattice_def)
  have e: "executeflip s r c LOW = Some ?s'"
    by (rule executeflip_low [OF flip_low_in_array [OF d f]])
  have rw: "rowcount (spec_down (matrix s) r c) i j =
      rowcount (matrix s) i j + (if i = r + 1 \<and> c - 1 \<le> j then 1 else 0)
        - (if i = r + 1 \<and> c \<le> j then down_loss (matrix s) r c else 0)" for i j
    by (rule rowcount_spec_down [of "matrix s" r c, OF cells(6) c0])
  have "heights_ok ?s'" if "down_loss (matrix s) r c = 1"
    using h that by (auto simp add: heights_ok_def height_map_height rw)
  moreover have "down_loss (matrix s) r c = 1" if ok: "heights_ok ?s'"
  proof -
    have "height (matrix ?s' (r + 1) c) = rowcount (matrix ?s') (r + 1) c"
      using ok rc c0 by (simp add: heights_ok_def)
    moreover have "height (matrix s (r + 1) c) = rowcount (matrix s) (r + 1) c"
      using h rc c0 by (simp add: heights_ok_def)
    ultimately show ?thesis
      by (simp add: height_map_height rw)
  qed
  ultimately have hs: "heights_ok ?s' \<longleftrightarrow> type (matrix s (r + 1) c) = 5 \<or> type (matrix s (r + 1) c) = 2"
    by (auto simp add: down_loss_def split: if_splits)
  have "heights_sum ?s' = heights_sum s + 1"
  proof -
    have "heights_sum ?s' =
        (\<Sum>i = 0..<nrows s. \<Sum>j = 0..<ncols s.
           height (matrix s i j) + (if i = r + 1 \<and> j = c - 1 then 1 else 0))"
      unfolding heights_sum_def
      by (auto intro!: sum.cong simp add: height_map_height)
    also have "\<dots> = heights_sum s + 1"
      unfolding heights_sum_def by (rule sum_one_cell) (use c0 rc in simp_all)
    finally show ?thesis .
  qed
  then have "volume_ok ?s'"
    using v by (simp add: volume_ok_def)
  then show ?thesis using e hs by simp
qed

text \<open>
  Claim C3, as amended. On a lattice that fits the array, let every stored height equal
  the count of cells of its row in columns \<open>0..j\<close> whose type is 0, 2 or 5, and let the
  volume counter equal the sum of the stored heights. Then \<^verbatim>\<open>executeflip\<close> at a flippable
  cell returns normally, the volume counter again equals the sum of the stored heights,
  and every stored height again equals its row count exactly when the row neighbour of
  the moved height has a type of its table: 3 or 4 at the right cell \<open>(r, c + 1)\<close> for UP,
  5 or 2 at the lower cell \<open>(r + 1, c)\<close> for DOWN.
\<close>

theorem executeflip_heights_volume:
  assumes "dims_ok s" "heights_ok s" "volume_ok s" "getisflippable s r c d = Some 1"
    "d = HIGH \<or> d = LOW"
  shows "\<exists>s'. executeflip s r c d = Some s' \<and> volume_ok s'
           \<and> (heights_ok s' \<longleftrightarrow>
                (if d = HIGH then type (matrix s r (c + 1)) = 3 \<or> type (matrix s r (c + 1)) = 4
                 else type (matrix s (r + 1) c) = 5 \<or> type (matrix s (r + 1) c) = 2))"
proof (cases "d = HIGH")
  case True
  then show ?thesis
    using executeflip_high_invariant [OF assms(1-3), of r c] assms(4) by simp
next
  case False
  then have "d = LOW" using assms(5) by simp
  then show ?thesis
    using executeflip_low_invariant [OF assms(1-3), of r c] assms(4)
    by (simp add: LOW_def HIGH_def)
qed

theorem executeflip_heights_volume_witness:
  "dims_ok ex_up \<and> heights_ok ex_up \<and> volume_ok ex_up
   \<and> getisflippable ex_up 1 0 HIGH = Some 1
   \<and> executeflip ex_up 1 0 HIGH \<noteq> None
   \<and> volume_ok (the (executeflip ex_up 1 0 HIGH))
   \<and> heights_ok (the (executeflip ex_up 1 0 HIGH))
   \<and> dims_ok ex_down \<and> heights_ok ex_down \<and> volume_ok ex_down
   \<and> getisflippable ex_down 0 1 LOW = Some 1
   \<and> executeflip ex_down 0 1 LOW \<noteq> None
   \<and> volume_ok (the (executeflip ex_down 0 1 LOW))
   \<and> heights_ok (the (executeflip ex_down 0 1 LOW))"
proof -
  have d: "dims_ok ex_up" "dims_ok ex_down"
    by (simp_all add: ex_dims)
  have h: "heights_ok ex_up" "heights_ok ex_down"
    by (simp_all add: ex_heights)
  have v: "volume_ok ex_up" "volume_ok ex_down"
    by (simp_all add: ex_volume)
  have f: "getisflippable ex_up 1 0 HIGH = Some 1" "getisflippable ex_down 0 1 LOW = Some 1"
    by (simp_all add: ex_flippable)
  have x: "type (matrix ex_up 1 (0 + 1)) = 3" "type (matrix ex_down (0 + 1) 1) = 5"
    by (simp_all add: ex_up_def ex_down_def state_of_def lattice_of_def)
  show ?thesis
    using executeflip_heights_volume [OF d(1) h(1) v(1) f(1)]
      executeflip_heights_volume [OF d(2) h(2) v(2) f(2)] d h v f x
    by (auto simp add: HIGH_def LOW_def)
qed

text \<open>
  Claim C3 as stated fails: in \<open>ex_stale\<close> the invariant holds and the UP flip at \<open>(1, 0)\<close>
  is admissible, but the right neighbour \<open>(1, 1)\<close> has type 0 and keeps it, so after the
  flip the row count at \<open>(1, 1)\<close> is 1 while the stored height is still 2.
\<close>

theorem executeflip_heights_counterexample:
  "dims_ok ex_stale \<and> types_ok ex_stale \<and> heights_ok ex_stale \<and> volume_ok ex_stale
   \<and> getisflippable ex_stale 1 0 HIGH = Some 1
   \<and> executeflip ex_stale 1 0 HIGH \<noteq> None
   \<and> height (matrix (the (executeflip ex_stale 1 0 HIGH)) 1 1) = 2
   \<and> rowcount (matrix (the (executeflip ex_stale 1 0 HIGH))) 1 1 = 1
   \<and> \<not> heights_ok (the (executeflip ex_stale 1 0 HIGH))"
proof -
  have d: "dims_ok ex_stale"
    by (simp add: ex_dims)
  have f: "getisflippable ex_stale 1 0 HIGH = Some 1"
    by (simp add: ex_flippable)
  have a: "in_array 1 0" "in_array (1 - 1) (0 + 1)" "in_array 1 (0 + 1)" "in_array (1 - 1) 0"
    by (simp_all add: in_array_def MAXROWS_def MAXCOLS_def)
  note e = executeflip_high [OF a, of ex_stale]
  have hh: "height (matrix (the (executeflip ex_stale 1 0 HIGH)) 1 1) = 2"
    by (simp add: e height_map_height) (simp add: ex_stale_def state_of_def lattice_of_def)
  have rr: "rowcount (matrix (the (executeflip ex_stale 1 0 HIGH))) 1 1 = 1"
    by (simp add: e rowcount_def sum_int_upto upto.simps spec_up_def retype_def table_def
        counted_def) (simp add: ex_stale_def state_of_def lattice_of_def)
  have "\<not> heights_ok (the (executeflip ex_stale 1 0 HIGH))"
  proof
    assume "heights_ok (the (executeflip ex_stale 1 0 HIGH))"
    then have "height (matrix (the (executeflip ex_stale 1 0 HIGH)) 1 1)
        = rowcount (matrix (the (executeflip ex_stale 1 0 HIGH))) 1 1"
      by (simp add: heights_ok_def e) (simp add: ex_stale_def state_of_def)
    then show False using hh rr by simp
  qed
  then show ?thesis
    using d f hh rr by (simp add: e ex_types ex_heights ex_volume)
qed


section \<open>Weight ratio\<close>

subsection \<open>The ratio at a flippable cell\<close>

lemma reassign_table:
  "b \<noteq> c \<Longrightarrow> reassign c d (reassign a b t) = table [(a, b), (c, d)] t"
  by (auto simp add: reassign_def table_def)

lemma get_wts_in: "0 \<le> k \<and> k \<le> 5 \<Longrightarrow> get_wts s k = Some (wts s k)"
  by (simp add: get_wts_def)

lemma high_index: "c - 1 + 2 * HIGH = c + 1" "r + 1 - 2 * HIGH = r - 1" "HIGH \<noteq> 0"
  by (simp_all add: HIGH_def)

lemma low_index: "c - 1 + 2 * LOW = c - 1" "r + 1 - 2 * LOW = r + 1" "LOW = 0"
  by (simp_all add: LOW_def)

lemma getweightratio_high:
  assumes "in_array r c" "in_array (r - 1) (c + 1)" "in_array r (c + 1)" "in_array (r - 1) c"
    and "0 \<le> type (matrix s r c) \<and> type (matrix s r c) \<le> 5"
    and "0 \<le> type (matrix s (r - 1) (c + 1)) \<and> type (matrix s (r - 1) (c + 1)) \<le> 5"
    and "0 \<le> type (matrix s r (c + 1)) \<and> type (matrix s r (c + 1)) \<le> 5"
    and "0 \<le> type (matrix s (r - 1) c) \<and> type (matrix s (r - 1) c) \<le> 5"
  shows "getweightratio A s r c HIGH =
           Some (fdiv A
                  (fmul A
                    (fmul A
                      (fmul A (wts s (table [(0, 4), (5, 1)] (type (matrix s r c))))
                        (wts s (table [(3, 5), (4, 2)] (type (matrix s r (c + 1))))))
                      (wts s (table [(2, 5), (4, 3)] (type (matrix s (r - 1) c)))))
                    (wts s (table [(1, 4), (5, 0)] (type (matrix s (r - 1) (c + 1))))))
                  (rho s))"
  using assms(1-4) table_range(1) [OF assms(5)] table_range(2) [OF assms(6)]
    table_range(3) [OF assms(7)] table_range(4) [OF assms(8)]
  unfolding getweightratio_def high_index(1,2)
  by (simp add: high_index(3) get_type_def reassign_table get_wts_in)

lemma getweightratio_low:
  assumes "in_array r c" "in_array (r + 1) (c - 1)" "in_array r (c - 1)" "in_array (r + 1) c"
    and "0 \<le> type (matrix s r c) \<and> type (matrix s r c) \<le> 5"
    and "0 \<le> type (matrix s (r + 1) (c - 1)) \<and> type (matrix s (r + 1) (c - 1)) \<le> 5"
    and "0 \<le> type (matrix s r (c - 1)) \<and> type (matrix s r (c - 1)) \<le> 5"
    and "0 \<le> type (matrix s (r + 1) c) \<and> type (matrix s (r + 1) c) \<le> 5"
  shows "getweightratio A s r c LOW =
           Some (fdiv A
                  (fmul A
                    (fmul A
                      (fmul A (wts s (table [(4, 1), (0, 5)] (type (matrix s r c))))
                        (wts s (table [(5, 2), (3, 4)] (type (matrix s r (c - 1))))))
                      (wts s (table [(5, 3), (2, 4)] (type (matrix s (r + 1) c)))))
                    (wts s (table [(4, 0), (1, 5)] (type (matrix s (r + 1) (c - 1))))))
                  (rho s))"
  using assms(1-4) table_range(5) [OF assms(5)] table_range(6) [OF assms(6)]
    table_range(7) [OF assms(7)] table_range(8) [OF assms(8)]
  unfolding getweightratio_def low_index
  by (simp add: get_type_def reassign_table get_wts_in)

lemma types_okD:
  "types_ok s \<Longrightarrow> in_lattice s i j \<Longrightarrow> 0 \<le> type (matrix s i j) \<and> type (matrix s i j) \<le> 5"
  by (simp add: types_ok_def in_lattice_def)

lemma spec_up_types:
  "type (spec_up m r c r c) = table [(0, 4), (5, 1)] (type (m r c))"
  "type (spec_up m r c (r - 1) (c + 1)) = table [(1, 4), (5, 0)] (type (m (r - 1) (c + 1)))"
  "type (spec_up m r c r (c + 1)) = table [(3, 5), (4, 2)] (type (m r (c + 1)))"
  "type (spec_up m r c (r - 1) c) = table [(2, 5), (4, 3)] (type (m (r - 1) c))"
  by (simp_all add: spec_up_def retype_def)

lemma spec_down_types:
  "type (spec_down m r c r c) = table [(4, 1), (0, 5)] (type (m r c))"
  "type (spec_down m r c (r + 1) (c - 1)) = table [(4, 0), (1, 5)] (type (m (r + 1) (c - 1)))"
  "type (spec_down m r c r (c - 1)) = table [(5, 2), (3, 4)] (type (m r (c - 1)))"
  "type (spec_down m r c (r + 1) c) = table [(5, 3), (2, 4)] (type (m (r + 1) c))"
  by (simp_all add: spec_down_def retype_def)

lemma getweightratio_high_flippable:
  assumes "dims_ok s" "types_ok s" "getisflippable s r c HIGH = Some 1"
  shows "getweightratio A s r c HIGH =
           Some (fdiv A
                  (fmul A
                    (fmul A
                      (fmul A (wts s (table [(0, 4), (5, 1)] (type (matrix s r c))))
                        (wts s (table [(3, 5), (4, 2)] (type (matrix s r (c + 1))))))
                      (wts s (table [(2, 5), (4, 3)] (type (matrix s (r - 1) c)))))
                    (wts s (table [(1, 4), (5, 0)] (type (matrix s (r - 1) (c + 1))))))
                  (rho s))"
  using flippable_high_cells(1-4) [OF assms(1,3)] assms(2)
  by (intro getweightratio_high flip_high_in_array [OF assms(1,3)] types_okD)

lemma getweightratio_low_flippable:
  assumes "dims_ok s" "types_ok s" "getisflippable s r c LOW = Some 1"
  shows "getweightratio A s r c LOW =
           Some (fdiv A
                  (fmul A
                    (fmul A
                      (fmul A (wts s (table [(4, 1), (0, 5)] (type (matrix s r c))))
                        (wts s (table [(5, 2), (3, 4)] (type (matrix s r (c - 1))))))
                      (wts s (table [(5, 3), (2, 4)] (type (matrix s (r + 1) c)))))
                    (wts s (table [(4, 0), (1, 5)] (type (matrix s (r + 1) (c - 1))))))
                  (rho s))"
  using flippable_low_cells(1-4) [OF assms(1,3)] assms(2)
  by (intro getweightratio_low flip_low_in_array [OF assms(1,3)] types_okD)

subsection \<open>What \<open>definerho\<close> leaves alone\<close>

lemma definerho_fields [simp]:
  "matrix (definerho A s) = matrix s" "wts (definerho A s) = wts s"
  "nrows (definerho A s) = nrows s" "ncols (definerho A s) = ncols s"
  "flipcompleted (definerho A s) = flipcompleted s" "flipfailed (definerho A s) = flipfailed s"
  by (simp_all add: definerho_def)

lemma definerho_preserves [simp]:
  "dims_ok (definerho A s) = dims_ok s" "types_ok (definerho A s) = types_ok s"
  "getisflippable (definerho A s) r c d = getisflippable s r c d"
  by (simp_all add: dims_ok_def types_ok_def getisflippable_def get_type_def)

subsection \<open>Evaluating the examples with weights\<close>

lemma rho_examples:
  "rho (definerho real_arith ex_up) = 2" "rho (definerho real_arith ex_down) = 2"
  "rho (definerho real_arith ex_bi) = 2"
  by (simp_all add: definerho_def rho_candidates_def rho_down_def rho_up_def rho_bi_first_def
      rho_bi_second_def prod4_def raise_to_def real_arith_def ex_up_def ex_down_def ex_bi_def
      state_of_def)

lemma ex_bi_facts:
  "dims_ok ex_bi" "types_ok ex_bi"
  "getisflippable ex_bi 1 1 HIGH = Some 1" "getisflippable ex_bi 1 1 LOW = Some 1"
  by (simp_all add: dims_ok_def types_ok_def getisflippable_def get_type_def in_array_def
      MAXROWS_def MAXCOLS_def HIGH_def LOW_def ex_bi_def state_of_def lattice_of_def
      ball_int_upto upto.simps)

lemma ex_slip_facts:
  "dims_ok (ex_slip dbl)" "types_ok (ex_slip dbl)"
  "getisflippable (ex_slip dbl) 1 0 HIGH = Some 1"
  by (simp_all add: dims_ok_def types_ok_def getisflippable_def get_type_def in_array_def
      MAXROWS_def MAXCOLS_def HIGH_def ex_slip_def lattice_of_def ball_int_upto upto.simps)

lemma exact_real_arith: "exact_on_ints real_arith real_of_int"
  by (simp add: exact_on_ints_def real_arith_def real_of_int_div)

text \<open>
  Claim C6. On a lattice that fits the array, with cell types in \<open>{0..5}\<close>, at a flippable
  cell \<open>(r, c)\<close> with direction \<open>d\<close> (UP is 1, DOWN is 0) the value \<^verbatim>\<open>getweightratio\<close> returns
  is the product of the weights of the four types that \<^verbatim>\<open>updatepositions\<close> writes for the
  same \<open>(r, c, d)\<close> at the base, the x-shift \<open>(r, c - 1 + 2d)\<close>, the y-shift
  \<open>(r + 1 - 2d, c)\<close> and the diagonal \<open>(r + 1 - 2d, c - 1 + 2d)\<close>, multiplied in this order
  and divided by \<open>rho\<close>, in the program's arithmetic of doubles, whatever that arithmetic
  is.
\<close>

theorem getweightratio_matches_flip:
  assumes "dims_ok s" "types_ok s" "getisflippable s r c d = Some 1" "d = HIGH \<or> d = LOW"
  shows "\<exists>s'. updatepositions s r c d = Some s'
           \<and> getweightratio A s r c d =
               Some (fdiv A
                      (fmul A
                        (fmul A
                          (fmul A (wts s (type (matrix s' r c)))
                            (wts s (type (matrix s' r (c - 1 + 2 * d)))))
                          (wts s (type (matrix s' (r + 1 - 2 * d) c))))
                        (wts s (type (matrix s' (r + 1 - 2 * d) (c - 1 + 2 * d)))))
                      (rho s))"
proof -
  consider "d = HIGH" | "d = LOW" using assms(4) by blast
  then show ?thesis
  proof cases
    case 1
    then have f: "getisflippable s r c HIGH = Some 1" using assms(3) by simp
    show ?thesis
      unfolding 1 high_index
      by (simp add: updatepositions_high [OF flip_high_in_array [OF assms(1) f]]
          getweightratio_high_flippable [OF assms(1,2) f] spec_up_types)
  next
    case 2
    then have f: "getisflippable s r c LOW = Some 1" using assms(3) by simp
    show ?thesis
      unfolding 2 low_index(1,2)
      by (simp add: updatepositions_low [OF flip_low_in_array [OF assms(1) f]]
          getweightratio_low_flippable [OF assms(1,2) f] spec_down_types)
  qed
qed

theorem getweightratio_matches_flip_witness:
  "dims_ok (definerho real_arith ex_up) \<and> types_ok (definerho real_arith ex_up)
   \<and> rho (definerho real_arith ex_up) = 2
   \<and> getisflippable (definerho real_arith ex_up) 1 0 HIGH = Some 1
   \<and> updatepositions (definerho real_arith ex_up) 1 0 HIGH \<noteq> None
   \<and> getweightratio real_arith (definerho real_arith ex_up) 1 0 HIGH = Some (1 / 2)
   \<and> dims_ok (definerho real_arith ex_down) \<and> types_ok (definerho real_arith ex_down)
   \<and> rho (definerho real_arith ex_down) = 2
   \<and> getisflippable (definerho real_arith ex_down) 0 1 LOW = Some 1
   \<and> updatepositions (definerho real_arith ex_down) 0 1 LOW \<noteq> None
   \<and> getweightratio real_arith (definerho real_arith ex_down) 0 1 LOW = Some (1 / 2)"
proof -
  have d: "dims_ok (definerho real_arith ex_up)" "dims_ok (definerho real_arith ex_down)"
    by (simp_all add: ex_dims)
  have t: "types_ok (definerho real_arith ex_up)" "types_ok (definerho real_arith ex_down)"
    by (simp_all add: ex_types)
  have f: "getisflippable (definerho real_arith ex_up) 1 0 HIGH = Some 1"
    "getisflippable (definerho real_arith ex_down) 0 1 LOW = Some 1"
    by (simp_all add: ex_flippable)
  have w: "wts ex_up = (\<lambda>k. 1)" "wts ex_down = (\<lambda>k. 1)"
    by (simp_all add: ex_up_def ex_down_def state_of_def)
  have g: "fmul real_arith = (*)" "fdiv real_arith = (/)"
    by (simp_all add: real_arith_def)
  show ?thesis
    using getweightratio_matches_flip [OF d(1) t(1) f(1), of real_arith]
      getweightratio_matches_flip [OF d(2) t(2) f(2), of real_arith] d t f
    by (auto simp add: rho_examples w g)
qed

subsection \<open>A product that \<open>definerho\<close> does not enumerate\<close>

text \<open>
  Claim C5, at an input where the program breaks it. The lattice \<open>2 5 / 0 3\<close> has types in
  \<open>{0..5}\<close>, the six weights \<open>(10, 1, 1, 1, 2, 10)\<close> are positive, and the UP flip at \<open>(1, 0)\<close>
  is admissible with every one of its four cells in its table. In every arithmetic of
  doubles that is exact on small integers, \<^verbatim>\<open>definerho\<close> leaves \<open>rho = 1000\<close> and
  \<^verbatim>\<open>getweightratio\<close> returns \<open>w4 w5 w5 w0 / rho = 2000 / 1000 = 2\<close>, which the program's own
  test finds greater than 1. The post-move product \<^verbatim>\<open>wts[4]*wts[5]*wts[0]*wts[5]\<close> is not
  among the 80 expressions: the ``biflip possibilities'' have
  \<^verbatim>\<open>wts[4]*wts[5]*wts[1]*wts[5]\<close> where the ``up normal flip possibilities'' have
  \<^verbatim>\<open>wts[1]*wts[5]*wts[0]*wts[5]\<close>.
\<close>

theorem definerho_misses_up_product:
  assumes "exact_on_ints A dbl"
  shows "dims_ok (definerho A (ex_slip dbl)) \<and> types_ok (definerho A (ex_slip dbl))
       \<and> getisflippable (definerho A (ex_slip dbl)) 1 0 HIGH = Some 1
       \<and> rho (definerho A (ex_slip dbl)) = dbl 1000
       \<and> getweightratio A (definerho A (ex_slip dbl)) 1 0 HIGH = Some (dbl 2)
       \<and> flt A (dbl 1) (dbl 2) \<and> \<not> fge A (dbl 1) (dbl 2)"
proof -
  have m: "fmul A (dbl a) (dbl b) = dbl (a * b)" if "small a" "small b" "small (a * b)" for a b
    using assms that by (simp add: exact_on_ints_def)
  have p: "fadd A (dbl a) (dbl b) = dbl (a + b)" if "small a" "small b" "small (a + b)" for a b
    using assms that by (simp add: exact_on_ints_def)
  have q: "fdiv A (dbl a) (dbl b) = dbl (a div b)" if "small a" "small b" "b \<noteq> 0" "b dvd a"
    for a b
    using assms that by (simp add: exact_on_ints_def)
  have l: "flt A (dbl a) (dbl b) = (a < b)" if "small a" "small b" for a b
    using assms that by (simp add: exact_on_ints_def)
  have g: "fge A (dbl a) (dbl b) = (a \<ge> b)" if "small a" "small b" for a b
    using assms that by (simp add: exact_on_ints_def)
  have w: "wts (ex_slip dbl) 0 = dbl 10" "wts (ex_slip dbl) 1 = dbl 1" "wts (ex_slip dbl) 2 = dbl 1"
    "wts (ex_slip dbl) 3 = dbl 1" "wts (ex_slip dbl) 4 = dbl 2" "wts (ex_slip dbl) 5 = dbl 10"
    "rho (ex_slip dbl) = dbl 0"
    by (simp_all add: ex_slip_def slip_weights_def)
  have r: "rho (definerho A (ex_slip dbl)) = dbl 1000"
    by (simp add: definerho_def rho_candidates_def rho_down_def rho_up_def rho_bi_first_def
        rho_bi_second_def prod4_def raise_to_def w m p l small_def)
  have "getweightratio A (definerho A (ex_slip dbl)) 1 0 HIGH =
      Some (fdiv A (fmul A (fmul A (fmul A (dbl 2) (dbl 10)) (dbl 10)) (dbl 10)) (dbl 1000))"
    using getweightratio_high_flippable [of "definerho A (ex_slip dbl)" 1 0 A] ex_slip_facts [of dbl]
    by (simp add: r table_def w) (simp add: ex_slip_def lattice_of_def w)
  then have "getweightratio A (definerho A (ex_slip dbl)) 1 0 HIGH = Some (dbl 2)"
    by (simp add: m q small_def)
  then show ?thesis
    by (simp add: r ex_slip_facts l g small_def)
qed

theorem definerho_misses_up_product_witness:
  "exact_on_ints real_arith real_of_int
   \<and> rho (definerho real_arith (ex_slip real_of_int)) = 1000
   \<and> getweightratio real_arith (definerho real_arith (ex_slip real_of_int)) 1 0 HIGH = Some 2"
  using definerho_misses_up_product [OF exact_real_arith] exact_real_arith
  by simp

section \<open>The driver's bi-flip case\<close>

text \<open>
  Claim C7. On a lattice that fits the array, with cell types in \<open>{0..5}\<close>, let both flips be
  admissible at the drawn cell. Then both ratios and both flips are defined, and the pass
  over the first matrix with the uniform draw \<open>u\<close> ends in the state of the UP flip with
  \<^verbatim>\<open>flipcompleted\<close> raised by one if \<open>u \<le> ratio(UP)\<close>; otherwise in the state of the DOWN flip
  with \<^verbatim>\<open>flipcompleted\<close> raised by one if \<open>u \<le> ratio(UP) + ratio(DOWN)\<close>; otherwise in the
  state it started from with \<^verbatim>\<open>flipfailed\<close> raised by one. Both ratios are the doubles
  \<^verbatim>\<open>getweightratio\<close> returns in the state before the pass, their sum is the program's sum
  of these two doubles, and \<open>u \<le> x\<close> is the program's test \<^verbatim>\<open>x>=random\<close> on doubles, whatever
  the arithmetic of doubles is.
\<close>

theorem biflip_selection:
  assumes d: "dims_ok s" and t: "types_ok s"
    and fh: "getisflippable s r c HIGH = Some 1" and fl: "getisflippable s r c LOW = Some 1"
  shows "\<exists>qu qd su sd.
           getweightratio A s r c HIGH = Some qu \<and> getweightratio A s r c LOW = Some qd
           \<and> executeflip s r c HIGH = Some su \<and> executeflip s r c LOW = Some sd
           \<and> first_matrix_step A s r c u =
               Some (if fge A qu u then su\<lparr>flipcompleted := flipcompleted s + 1\<rparr>
                     else if fge A (fadd A qu qd) u
                       then sd\<lparr>flipcompleted := flipcompleted s + 1\<rparr>
                     else s\<lparr>flipfailed := flipfailed s + 1\<rparr>)"
  by (simp add: first_matrix_step_def fh fl
      getweightratio_high_flippable [OF d t fh] getweightratio_low_flippable [OF d t fl]
      executeflip_high [OF flip_high_in_array [OF d fh]]
      executeflip_low [OF flip_low_in_array [OF d fl]])

theorem biflip_selection_witness:
  "dims_ok (definerho real_arith ex_bi) \<and> types_ok (definerho real_arith ex_bi)
   \<and> getisflippable (definerho real_arith ex_bi) 1 1 HIGH = Some 1
   \<and> getisflippable (definerho real_arith ex_bi) 1 1 LOW = Some 1
   \<and> getweightratio real_arith (definerho real_arith ex_bi) 1 1 HIGH = Some (1 / 2)
   \<and> getweightratio real_arith (definerho real_arith ex_bi) 1 1 LOW = Some (1 / 2)
   \<and> first_matrix_step real_arith (definerho real_arith ex_bi) 1 1 (1 / 4) =
       map_option (\<lambda>s'. s'\<lparr>flipcompleted := 1\<rparr>)
         (executeflip (definerho real_arith ex_bi) 1 1 HIGH)
   \<and> first_matrix_step real_arith (definerho real_arith ex_bi) 1 1 (3 / 4) =
       map_option (\<lambda>s'. s'\<lparr>flipcompleted := 1\<rparr>)
         (executeflip (definerho real_arith ex_bi) 1 1 LOW)
   \<and> first_matrix_step real_arith (definerho real_arith ex_bi) 1 1 1 =
       map_option (\<lambda>s'. s'\<lparr>flipcompleted := 1\<rparr>)
         (executeflip (definerho real_arith ex_bi) 1 1 LOW)
   \<and> first_matrix_step real_arith (definerho real_arith ex_bi) 1 1 (5 / 4) =
       Some ((definerho real_arith ex_bi)\<lparr>flipfailed := 1\<rparr>)"
proof -
  have d: "dims_ok (definerho real_arith ex_bi)" and t: "types_ok (definerho real_arith ex_bi)"
    by (simp_all add: ex_bi_facts)
  have f: "getisflippable (definerho real_arith ex_bi) 1 1 HIGH = Some 1"
    "getisflippable (definerho real_arith ex_bi) 1 1 LOW = Some 1"
    by (simp_all add: ex_bi_facts)
  have h: "fmul real_arith = (*)" "fdiv real_arith = (/)"
    by (simp_all add: real_arith_def)
  have qu: "getweightratio real_arith (definerho real_arith ex_bi) 1 1 HIGH = Some (1 / 2)"
    using getweightratio_high_flippable [OF d t f(1), of real_arith]
    by (simp add: rho_examples table_def h)
      (simp add: ex_bi_def state_of_def lattice_of_def)
  have qd: "getweightratio real_arith (definerho real_arith ex_bi) 1 1 LOW = Some (1 / 2)"
    using getweightratio_low_flippable [OF d t f(2), of real_arith]
    by (simp add: rho_examples table_def h)
      (simp add: ex_bi_def state_of_def lattice_of_def)
  have c: "flipcompleted ex_bi = 0" "flipfailed ex_bi = 0"
    by (simp_all add: ex_bi_def state_of_def)
  have g: "fge real_arith = (\<ge>)" "fadd real_arith = (+)"
    by (simp_all add: real_arith_def)
  show ?thesis
    using biflip_selection [OF d t f, of real_arith "1 / 4"]
      biflip_selection [OF d t f, of real_arith "3 / 4"]
      biflip_selection [OF d t f, of real_arith 1]
      biflip_selection [OF d t f, of real_arith "5 / 4"] d t f qu qd c
    by (auto simp add: g)
qed

section \<open>Exit status\<close>

text \<open>
  Claim C9, as amended. Whenever \<^verbatim>\<open>fopen\<close> of the upper or of the lower input file fails,
  \<^verbatim>\<open>main\<close> returns the status 0; and every status \<^verbatim>\<open>main\<close> returns before the sampling
  loop is 0.
\<close>

theorem main_exit_status:
  "(\<not> fopen_upper e \<or> \<not> fopen_lower e \<longrightarrow> main_startup e = Return 0)
   \<and> (\<forall>status. main_startup e = Return status \<longrightarrow> status = 0)"
  by (simp add: main_startup_def)

theorem main_exit_status_witness:
  "main_startup \<lparr>argc = 14, fgets_upper = True, fopen_upper = True, fgets_lower = True,
                 fopen_lower = False\<rparr> = Return 0
   \<and> main_startup \<lparr>argc = 1, fgets_upper = True, fopen_upper = False, fgets_lower = True,
                 fopen_lower = True\<rparr> = Return 0"
  using main_exit_status [of "\<lparr>argc = 14, fgets_upper = True, fopen_upper = True,
      fgets_lower = True, fopen_lower = False\<rparr>"]
    main_exit_status [of "\<lparr>argc = 1, fgets_upper = True, fopen_upper = False,
      fgets_lower = True, fopen_lower = True\<rparr>"]
  by simp

text \<open>
  Claim C9 as stated fails: started with arguments, with an upper input file that cannot
  be opened, \<^verbatim>\<open>main\<close> prints \<^verbatim>\<open>*** error opening file\<close> and returns 0, not a non-zero status.
\<close>

theorem main_exit_status_counterexample:
  "main_startup \<lparr>argc = 14, fgets_upper = True, fopen_upper = False, fgets_lower = True,
                 fopen_lower = True\<rparr> = Return 0"
  by (simp add: main_startup_def)


section \<open>Volume\<close>

subsection \<open>The walk of \<open>print_volume\<close>\<close>

lemma counted_if: "(if t = 0 \<or> t = 2 \<or> t = 5 then c + 1 else c) = c + counted t"
  by (simp add: counted_def)

lemma rowcount_step: "0 \<le> j \<Longrightarrow> rowcount m i j = rowcount m i (j - 1) + counted (type (m i j))"
proof -
  assume "0 \<le> j"
  then have "{0..j} = insert j {0..j - 1}" by auto
  then show ?thesis by (simp add: rowcount_def)
qed

lemma rowcount_before: "rowcount m i (- 1) = 0"
  by (simp add: rowcount_def)

lemma sum_less_Suc_int: "(\<Sum>j = 0..<1 + int n. f j) = (\<Sum>j = 0..<int n. f j) + (f (int n) :: int)"
proof -
  have "{0..<1 + int n} = insert (int n) {0..<int n}" by auto
  then show ?thesis by simp
qed

lemma volume_cells:
  assumes "0 \<le> i" "i < MAXROWS" "int n \<le> MAXCOLS"
  shows "for_upto n (volume_cell s i) (0, t0) =
           Some (rowcount (matrix s) i (int n - 1),
                 t0 + (\<Sum>j = 0..<int n. rowcount (matrix s) i j))"
  using assms(3)
proof (induction n)
  case 0
  show ?case by (simp add: rowcount_before)
next
  case (Suc n)
  have a: "in_array i (int n)"
    using assms(1,2) Suc.prems by (simp add: in_array_def)
  have "for_upto (Suc n) (volume_cell s i) (0, t0) =
      volume_cell s i (int n) (rowcount (matrix s) i (int n - 1),
        t0 + (\<Sum>j = 0..<int n. rowcount (matrix s) i j))"
    using Suc by simp
  also have "\<dots> = Some (rowcount (matrix s) i (int n),
        t0 + (\<Sum>j = 0..<int n. rowcount (matrix s) i j) + rowcount (matrix s) i (int n))"
    using a by (simp add: volume_cell_def get_type_def counted_if rowcount_step [of "int n"] Let_def)
  finally show ?case
    by (simp add: sum_less_Suc_int)
qed

lemma volume_rows:
  assumes "int n \<le> MAXROWS" "ncols s \<le> MAXCOLS"
  shows "\<exists>cur. for_upto n (volume_row s) (c0, 0) =
           Some (cur, \<Sum>i = 0..<int n. \<Sum>j = 0..<ncols s. rowcount (matrix s) i j)"
  using assms(1)
proof (induction n)
  case 0
  show ?case by simp
next
  case (Suc n)
  then obtain cur where c: "for_upto n (volume_row s) (c0, 0) =
      Some (cur, \<Sum>i = 0..<int n. \<Sum>j = 0..<ncols s. rowcount (matrix s) i j)"
    by auto
  have b: "int (nat (ncols s)) \<le> MAXCOLS"
    using assms(2) by (simp add: MAXCOLS_def)
  have e: "{0..<int (nat (ncols s))} = {0..<ncols s}" by auto
  have "volume_row s (int n) (cur, t0) =
      Some (rowcount (matrix s) (int n) (int (nat (ncols s)) - 1),
            t0 + (\<Sum>j = 0..<ncols s. rowcount (matrix s) (int n) j))" for t0
    using volume_cells [of "int n" "nat (ncols s)" s t0] b Suc.prems
    by (simp add: volume_row_def e)
  then show ?case
    using c by (simp add: sum_less_Suc_int)
qed

lemma rowcounts_weighted:
  "(\<Sum>j = 0..<int n. rowcount m i j) = (\<Sum>j = 0..<int n. (int n - j) * counted (type (m i j)))"
proof (induction n)
  case 0
  show ?case by simp
next
  case (Suc n)
  have r: "rowcount m i (int n) = (\<Sum>j = 0..<int n. counted (type (m i j))) + counted (type (m i (int n)))"
  proof -
    have "{0..int n} = insert (int n) {0..<int n}" by auto
    then show ?thesis by (simp add: rowcount_def)
  qed
  have "(\<Sum>j = 0..<int (Suc n). (int (Suc n) - j) * counted (type (m i j)))
      = (\<Sum>j = 0..<int n. (1 + int n - j) * counted (type (m i j)))
        + counted (type (m i (int n)))"
    by (simp add: sum_less_Suc_int)
  also have "\<dots> = (\<Sum>j = 0..<int n. (int n - j) * counted (type (m i j)) + counted (type (m i j)))
        + counted (type (m i (int n)))"
    by (simp add: algebra_simps)
  also have "\<dots> = (\<Sum>j = 0..<int n. rowcount m i j) + rowcount m i (int n)"
    by (simp add: sum.distrib Suc.IH r)
  finally show ?case
    by (simp add: sum_less_Suc_int)
qed

lemma rowcounts_weighted_int:
  "(\<Sum>j = 0..<C. rowcount m i j) = (\<Sum>j = 0..<C. (C - j) * counted (type (m i j)))"
proof (cases "0 \<le> C")
  case True
  then show ?thesis using rowcounts_weighted [where n = "nat C" and m = m and i = i] by simp
next
  case False
  then show ?thesis by simp
qed

lemma print_volume_eq:
  assumes "dims_ok s"
  shows "print_volume s = Some (weighted_sum s)"
proof -
  have b: "int (nat (nrows s)) \<le> MAXROWS"
    using assms by (simp add: dims_ok_def MAXROWS_def)
  have e: "{0..<int (nat (nrows s))} = {0..<nrows s}" by auto
  obtain cur where "for_upto (nat (nrows s)) (volume_row s) (0, 0) =
      Some (cur, \<Sum>i = 0..<nrows s. \<Sum>j = 0..<ncols s. rowcount (matrix s) i j)"
    using volume_rows [of "nat (nrows s)" s 0] b assms by (auto simp add: dims_ok_def e)
  then show ?thesis
    by (simp add: print_volume_def weighted_sum_def rowcounts_weighted_int)
qed

subsection \<open>The walk of \<open>setheights\<close>\<close>

lemma with_heights_fields [simp]:
  "type (matrix (with_heights P s) i j) = type (matrix s i j)"
  "nrows (with_heights P s) = nrows s" "ncols (with_heights P s) = ncols s"
  "matrixvol (with_heights P s) = matrixvol s"
  by (simp_all add: with_heights_def)

lemma with_heights_height:
  "height (matrix (with_heights P s) i j) =
     (if P i j then rowcount (matrix s) i j else height (matrix s i j))"
  by (simp add: with_heights_def)

lemma with_heights_rowcount [simp]: "rowcount (matrix (with_heights P s)) i j = rowcount (matrix s) i j"
  by (simp add: rowcount_def)

lemma with_heights_get_type [simp]: "get_type (with_heights P s) i j = get_type s i j"
  by (simp add: get_type_def)

lemma with_heights_cong: "(\<And>a b. P a b = Q a b) \<Longrightarrow> with_heights P s = with_heights Q s"
  by (simp add: with_heights_def)

lemma with_heights_none: "(\<And>a b. \<not> P a b) \<Longrightarrow> with_heights P s = s"
  by (simp add: with_heights_def)

lemma with_heights_set:
  "in_array i j \<Longrightarrow>
   set_height i j (rowcount (matrix s) i j) (with_heights P s) =
     Some (with_heights (\<lambda>a b. P a b \<or> a = i \<and> b = j) s)"
  by (auto simp add: set_height_def with_heights_def fun_eq_iff)

lemma setheights_cells:
  assumes "0 \<le> i" "i < MAXROWS" "int n \<le> MAXCOLS"
  shows "for_upto n (setheights_cell i) (with_heights P s, 0, t0) =
           Some (with_heights (\<lambda>a b. P a b \<or> a = i \<and> 0 \<le> b \<and> b < int n) s,
                 rowcount (matrix s) i (int n - 1),
                 t0 + (\<Sum>j = 0..<int n. rowcount (matrix s) i j))"
  using assms(3)
proof (induction n)
  case 0
  have "with_heights (\<lambda>a b. P a b \<or> a = i \<and> 0 \<le> b \<and> b < int 0) s = with_heights P s"
    by (rule with_heights_cong) auto
  then show ?case by (simp add: rowcount_before)
next
  case (Suc n)
  let ?Q = "\<lambda>a b. P a b \<or> a = i \<and> 0 \<le> b \<and> b < int n"
  have a: "in_array i (int n)"
    using assms(1,2) Suc.prems by (simp add: in_array_def)
  have q: "with_heights (\<lambda>a b. ?Q a b \<or> a = i \<and> b = int n) s
      = with_heights (\<lambda>a b. P a b \<or> a = i \<and> 0 \<le> b \<and> b < int (Suc n)) s"
    by (rule with_heights_cong) auto
  have "for_upto (Suc n) (setheights_cell i) (with_heights P s, 0, t0) =
      setheights_cell i (int n) (with_heights ?Q s, rowcount (matrix s) i (int n - 1),
        t0 + (\<Sum>j = 0..<int n. rowcount (matrix s) i j))"
    using Suc by simp
  also have "\<dots> = Some (with_heights (\<lambda>a b. ?Q a b \<or> a = i \<and> b = int n) s,
        rowcount (matrix s) i (int n),
        t0 + (\<Sum>j = 0..<int n. rowcount (matrix s) i j) + rowcount (matrix s) i (int n))"
    using a with_heights_set [OF a, of s ?Q]
    by (simp add: setheights_cell_def get_type_def counted_if rowcount_step [of "int n"] Let_def)
  finally show ?case
    unfolding q by (simp add: sum_less_Suc_int)
qed

lemma setheights_rows:
  assumes "int n \<le> MAXROWS" "ncols s \<le> MAXCOLS"
  shows "\<exists>cur. for_upto n setheights_row (s, c0, 0) =
           Some (with_heights (\<lambda>a b. 0 \<le> a \<and> a < int n \<and> 0 \<le> b \<and> b < ncols s) s, cur,
                 \<Sum>i = 0..<int n. \<Sum>j = 0..<ncols s. rowcount (matrix s) i j)"
  using assms(1)
proof (induction n)
  case 0
  have "with_heights (\<lambda>a b. 0 \<le> a \<and> a < int 0 \<and> 0 \<le> b \<and> b < ncols s) s = s"
    by (rule with_heights_none) auto
  then show ?case by simp
next
  case (Suc n)
  let ?Q = "\<lambda>a b. 0 \<le> a \<and> a < int n \<and> 0 \<le> b \<and> b < ncols s"
  obtain cur where c: "for_upto n setheights_row (s, c0, 0) =
      Some (with_heights ?Q s, cur, \<Sum>i = 0..<int n. \<Sum>j = 0..<ncols s. rowcount (matrix s) i j)"
    using Suc by auto
  have b: "int (nat (ncols s)) \<le> MAXCOLS"
    using assms(2) by (simp add: MAXCOLS_def)
  have e: "{0..<int (nat (ncols s))} = {0..<ncols s}" by auto
  have q: "with_heights (\<lambda>a b. ?Q a b \<or> a = int n \<and> 0 \<le> b \<and> b < int (nat (ncols s))) s
      = with_heights (\<lambda>a b. 0 \<le> a \<and> a < int (Suc n) \<and> 0 \<le> b \<and> b < ncols s) s"
    by (rule with_heights_cong) auto
  have "setheights_row (int n) (with_heights ?Q s, cur, t0) =
      Some (with_heights (\<lambda>a b. 0 \<le> a \<and> a < int (Suc n) \<and> 0 \<le> b \<and> b < ncols s) s,
            rowcount (matrix s) (int n) (int (nat (ncols s)) - 1),
            t0 + (\<Sum>j = 0..<ncols s. rowcount (matrix s) (int n) j))" for t0
    using setheights_cells [of "int n" "nat (ncols s)" ?Q s t0] b Suc.prems
    unfolding q by (simp add: setheights_row_def e)
  then show ?case
    using c by (simp add: sum_less_Suc_int)
qed

lemma setheights_eq:
  assumes "dims_ok s"
  shows "setheights s = Some (with_heights (in_lattice s) s, weighted_sum s)"
proof -
  have b: "int (nat (nrows s)) \<le> MAXROWS"
    using assms by (simp add: dims_ok_def MAXROWS_def)
  have e: "{0..<int (nat (nrows s))} = {0..<nrows s}" by auto
  have q: "with_heights (\<lambda>a b. 0 \<le> a \<and> a < int (nat (nrows s)) \<and> 0 \<le> b \<and> b < ncols s) s
      = with_heights (in_lattice s) s"
    by (rule with_heights_cong) (auto simp add: in_lattice_def)
  obtain cur where "for_upto (nat (nrows s)) setheights_row (s, 0, 0) =
      Some (with_heights (in_lattice s) s, cur,
            \<Sum>i = 0..<nrows s. \<Sum>j = 0..<ncols s. rowcount (matrix s) i j)"
    using setheights_rows [of "nat (nrows s)" s 0] b assms
    unfolding q by (auto simp add: dims_ok_def e)
  then show ?thesis
    by (simp add: setheights_def weighted_sum_def rowcounts_weighted_int)
qed

lemma with_heights_ok: "heights_ok (with_heights (in_lattice s) s)"
  by (simp add: heights_ok_def with_heights_height in_lattice_def)

lemma with_heights_sum: "heights_sum (with_heights (in_lattice s) s) = weighted_sum s"
proof -
  have "heights_sum (with_heights (in_lattice s) s)
      = (\<Sum>i = 0..<nrows s. \<Sum>j = 0..<ncols s. rowcount (matrix s) i j)"
    unfolding heights_sum_def
    by (auto intro!: sum.cong simp add: with_heights_height in_lattice_def)
  then show ?thesis
    by (simp add: weighted_sum_def rowcounts_weighted_int)
qed

lemma with_heights_weighted [simp]: "weighted_sum (with_heights P s) = weighted_sum s"
  by (simp add: weighted_sum_def)

lemma with_heights_dims [simp]: "dims_ok (with_heights P s) = dims_ok s"
  by (simp add: dims_ok_def)


lemma ex_weighted: "weighted_sum ex_up = 5"
  by (simp add: weighted_sum_def counted_def ex_up_def state_of_def lattice_of_def
      sum_int_upto_less upto.simps)

lemma ex_indicator: "indicator_sum ex_up = 3"
  by (simp add: indicator_sum_def counted_def ex_up_def state_of_def lattice_of_def
      sum_int_upto_less upto.simps)

text \<open>
  Claim C8, as amended. On a lattice that fits the array, the number \<^verbatim>\<open>print_volume\<close>
  emits is the sum over all cells \<open>(i, j)\<close> of \<open>(C - j)\<close> times the indicator of the types 0, 2,
  5: a cell of such a type counts once for every column from its own to the end of the
  row. \<^verbatim>\<open>setheights\<close> returns the same number, stores heights that satisfy the height
  invariant and sum to that number, and \<^verbatim>\<open>print_volume\<close> emits it again afterwards.
\<close>

theorem volume_weighted_sum:
  assumes "dims_ok s"
  shows "print_volume s = Some (weighted_sum s)
       \<and> (\<exists>s'. setheights s = Some (s', weighted_sum s) \<and> heights_ok s'
              \<and> heights_sum s' = weighted_sum s \<and> print_volume s' = Some (weighted_sum s))"
  using assms print_volume_eq [of s] print_volume_eq [of "with_heights (in_lattice s) s"]
  by (simp add: setheights_eq with_heights_ok with_heights_sum)

theorem volume_weighted_sum_witness:
  "dims_ok ex_up \<and> print_volume ex_up = Some 5 \<and> setheights ex_up \<noteq> None
   \<and> snd (the (setheights ex_up)) = 5 \<and> heights_ok (fst (the (setheights ex_up)))
   \<and> heights_sum (fst (the (setheights ex_up))) = 5"
  using volume_weighted_sum [OF ex_dims(1)] ex_dims(1)
  by (auto simp add: ex_weighted)

text \<open>
  Claim C8 as stated fails: on \<open>ex_up\<close>, with types \<open>2 5 / 0 3\<close> and heights \<open>1 2 / 1 1\<close>, the
  volume is 5 (the sum of the stored heights, and the number \<^verbatim>\<open>print_volume\<close> emits),
  while three cells have a type in \<open>{0, 2, 5}\<close>.
\<close>

theorem volume_indicator_counterexample:
  "dims_ok ex_up \<and> types_ok ex_up \<and> heights_ok ex_up \<and> heights_sum ex_up = 5
   \<and> print_volume ex_up = Some 5 \<and> indicator_sum ex_up = 3"
proof -
  have "heights_sum ex_up = 5"
    using ex_volume(1) by (simp add: volume_ok_def ex_up_def state_of_def)
  then show ?thesis
    by (simp add: print_volume_eq ex_dims ex_types ex_heights ex_weighted ex_indicator)
qed

section \<open>Parsing\<close>

lemma fgetc_drop: "fgetc (drop k data) = (byte_at data k, drop (Suc k) data)"
proof (cases "k < length data")
  case True
  then have "drop k data = data ! k # drop (Suc k) data"
    by (simp add: Cons_nth_drop_Suc)
  then show ?thesis using True by (simp add: fgetc_def byte_at_def)
next
  case False
  then show ?thesis by (simp add: fgetc_def byte_at_def)
qed

lemma with_types_fields [simp]:
  "height (matrix (with_types P f s) i j) = height (matrix s i j)"
  "nrows (with_types P f s) = nrows s" "ncols (with_types P f s) = ncols s"
  by (simp_all add: with_types_def)

lemma with_types_type:
  "type (matrix (with_types P f s) i j) = (if P i j then f i j else type (matrix s i j))"
  by (simp add: with_types_def)

lemma with_types_cong: "(\<And>a b. P a b = Q a b) \<Longrightarrow> with_types P f s = with_types Q f s"
  by (simp add: with_types_def)

lemma with_types_none: "(\<And>a b. \<not> P a b) \<Longrightarrow> with_types P f s = s"
  by (simp add: with_types_def)

lemma with_types_set:
  "in_array i j \<Longrightarrow>
   set_type i j (f i j) (with_types P f s) = Some (with_types (\<lambda>a b. P a b \<or> a = i \<and> b = j) f s)"
  by (auto simp add: set_type_def with_types_def fun_eq_iff)

lemma stream_position: "0 \<le> C \<Longrightarrow> nat (int r * C + int n) = r * nat C + n"
  by (simp add: nat_add_distrib nat_mult_distrib)

lemma parse_cells:
  assumes "int r < MAXROWS" "int n \<le> MAXCOLS" "n \<le> nat C"
  shows "for_upto n (parse_cell (int r))
           (with_types P (\<lambda>i j. byte_at data (nat (i * C + j)) - 48) s, drop (r * nat C) data) =
         Some (with_types (\<lambda>a b. P a b \<or> a = int r \<and> 0 \<le> b \<and> b < int n)
                 (\<lambda>i j. byte_at data (nat (i * C + j)) - 48) s,
               drop (r * nat C + n) data)"
  using assms(2,3)
proof (induction n)
  case 0
  have "with_types (\<lambda>a b. P a b \<or> a = int r \<and> 0 \<le> b \<and> b < int 0)
      (\<lambda>i j. byte_at data (nat (i * C + j)) - 48) s
      = with_types P (\<lambda>i j. byte_at data (nat (i * C + j)) - 48) s"
    by (rule with_types_cong) auto
  then show ?case by simp
next
  case (Suc n)
  let ?f = "\<lambda>i j. byte_at data (nat (i * C + j)) - 48"
  let ?Q = "\<lambda>a b. P a b \<or> a = int r \<and> 0 \<le> b \<and> b < int n"
  have a: "in_array (int r) (int n)"
    using assms(1) Suc.prems by (simp add: in_array_def)
  have c: "0 \<le> C" using Suc.prems by simp
  have q: "with_types (\<lambda>a b. ?Q a b \<or> a = int r \<and> b = int n) ?f s
      = with_types (\<lambda>a b. P a b \<or> a = int r \<and> 0 \<le> b \<and> b < int (Suc n)) ?f s"
    by (rule with_types_cong) auto
  have "for_upto (Suc n) (parse_cell (int r)) (with_types P ?f s, drop (r * nat C) data) =
      parse_cell (int r) (int n) (with_types ?Q ?f s, drop (r * nat C + n) data)"
    using Suc by simp
  also have "\<dots> = Some (with_types (\<lambda>a b. ?Q a b \<or> a = int r \<and> b = int n) ?f s,
        drop (Suc (r * nat C + n)) data)"
    using with_types_set [OF a, of ?f ?Q s]
    by (simp add: parse_cell_def fgetc_drop stream_position [OF c])
  finally show ?case
    unfolding q by simp
qed

lemma parse_rows:
  assumes "int n \<le> MAXROWS" "ncols s \<le> MAXCOLS"
  shows "for_upto n parse_row (s, data) =
           Some (with_types (\<lambda>a b. 0 \<le> a \<and> a < int n \<and> 0 \<le> b \<and> b < ncols s)
                   (\<lambda>i j. byte_at data (nat (i * ncols s + j)) - 48) s,
                 drop (n * nat (ncols s)) data)"
  using assms(1)
proof (induction n)
  case 0
  have "with_types (\<lambda>a b. 0 \<le> a \<and> a < int 0 \<and> 0 \<le> b \<and> b < ncols s)
      (\<lambda>i j. byte_at data (nat (i * ncols s + j)) - 48) s = s"
    by (rule with_types_none) auto
  then show ?case by simp
next
  case (Suc n)
  let ?f = "\<lambda>i j. byte_at data (nat (i * ncols s + j)) - 48"
  let ?Q = "\<lambda>a b. 0 \<le> a \<and> a < int n \<and> 0 \<le> b \<and> b < ncols s"
  have b: "int (nat (ncols s)) \<le> MAXCOLS"
    using assms(2) by (simp add: MAXCOLS_def)
  have q: "with_types (\<lambda>a b. ?Q a b \<or> a = int n \<and> 0 \<le> b \<and> b < int (nat (ncols s))) ?f s
      = with_types (\<lambda>a b. 0 \<le> a \<and> a < int (Suc n) \<and> 0 \<le> b \<and> b < ncols s) ?f s"
    by (rule with_types_cong) auto
  have "for_upto (Suc n) parse_row (s, data) =
      parse_row (int n) (with_types ?Q ?f s, drop (n * nat (ncols s)) data)"
    using Suc by simp
  also have "\<dots> = Some (with_types (\<lambda>a b. 0 \<le> a \<and> a < int (Suc n) \<and> 0 \<le> b \<and> b < ncols s) ?f s,
        drop (n * nat (ncols s) + nat (ncols s)) data)"
    using parse_cells [of n "nat (ncols s)" "ncols s" ?Q data s] b Suc.prems
    unfolding q by (simp add: parse_row_def)
  finally show ?case by (simp add: add.commute)
qed

lemma parse_eq:
  assumes "dims_ok s"
  shows "parse s data =
           Some (with_types (in_lattice s) (\<lambda>i j. byte_at data (nat (i * ncols s + j)) - 48) s)"
proof -
  have b: "int (nat (nrows s)) \<le> MAXROWS"
    using assms by (simp add: dims_ok_def MAXROWS_def)
  have q: "with_types (\<lambda>a b. 0 \<le> a \<and> a < int (nat (nrows s)) \<and> 0 \<le> b \<and> b < ncols s)
        (\<lambda>i j. byte_at data (nat (i * ncols s + j)) - 48) s
      = with_types (in_lattice s) (\<lambda>i j. byte_at data (nat (i * ncols s + j)) - 48) s"
    by (rule with_types_cong) (auto simp add: in_lattice_def)
  show ?thesis
    using parse_rows [of "nat (nrows s)" s data] b assms
    unfolding q by (simp add: parse_def dims_ok_def)
qed

lemma byte_at_digit:
  "48 \<le> byte_at data k \<and> byte_at data k \<le> 53 \<longleftrightarrow>
     k < length data \<and> 48 \<le> uint (data ! k) \<and> uint (data ! k) \<le> 53"
  by (auto simp add: byte_at_def EOF_def)


text \<open>
  Claim C10. On a lattice that fits the array, \<^verbatim>\<open>parse\<close> returns normally for every byte
  stream and leaves the state in which the cell \<open>(i, j)\<close> of the lattice has the type
  \<open>byte - 48\<close> for the byte at position \<open>i * C + j\<close> of the stream, or \<open>EOF - 48\<close> when the
  stream has ended; heights, cells outside the lattice and the other globals are as
  before. The stored type lies in \<open>{0..5}\<close> exactly when the position holds one of the
  bytes \<open>'0'..'5'\<close> (48 to 53): any other byte, and the end of the stream, give a type
  outside \<open>{0..5}\<close>, and nothing else happens.
\<close>

theorem parse_no_validation:
  assumes "dims_ok s"
  shows "\<exists>s'. parse s data = Some s'
           \<and> s' = with_types (in_lattice s) (\<lambda>i j. byte_at data (nat (i * ncols s + j)) - 48) s
           \<and> (\<forall>i j. in_lattice s i j \<longrightarrow>
                 type (matrix s' i j) = byte_at data (nat (i * ncols s + j)) - 48
                 \<and> (0 \<le> type (matrix s' i j) \<and> type (matrix s' i j) \<le> 5 \<longleftrightarrow>
                      nat (i * ncols s + j) < length data
                      \<and> 48 \<le> uint (data ! nat (i * ncols s + j))
                      \<and> uint (data ! nat (i * ncols s + j)) \<le> 53))"
  using assms by (simp add: parse_eq with_types_type byte_at_digit)

theorem parse_no_validation_witness:
  "dims_ok ex_blank \<and> parse ex_blank [0x32, 0x37] \<noteq> None
   \<and> type (matrix (the (parse ex_blank [0x32, 0x37])) 0 0) = 2
   \<and> type (matrix (the (parse ex_blank [0x32, 0x37])) 0 1) = 7
   \<and> type (matrix (the (parse ex_blank [0x32, 0x37])) 1 0) = EOF - 48
   \<and> type (matrix (the (parse ex_blank [0x32, 0x37])) 1 1) = - 49"
proof -
  have d: "dims_ok ex_blank"
    by (simp add: dims_ok_def ex_blank_def state_of_def MAXROWS_def MAXCOLS_def)
  have i: "in_lattice ex_blank 0 0" "in_lattice ex_blank 0 1" "in_lattice ex_blank 1 0"
    "in_lattice ex_blank 1 1"
    by (simp_all add: in_lattice_def ex_blank_def state_of_def)
  have n: "ncols ex_blank = 2"
    by (simp add: ex_blank_def state_of_def)
  obtain s' where s': "parse ex_blank [0x32, 0x37] = Some s'"
    and t: "\<And>i j. in_lattice ex_blank i j \<Longrightarrow>
      type (matrix s' i j) = byte_at [0x32, 0x37] (nat (i * ncols ex_blank + j)) - 48"
    using parse_no_validation [OF d, of "[0x32, 0x37]"] by blast
  show ?thesis
    using d t [OF i(1)] t [OF i(2)] t [OF i(3)] t [OF i(4)]
    by (simp add: s' n byte_at_def EOF_def)
qed

end
